theory Spec2Isabelle
  imports Complex_Main "HOL-Library.Word"
begin

unbundle bit_operations_syntax

section \<open>The sampler plugin (plugins/eg-sampler.lv2/sampler.c)\<close>

text \<open>
  A shallow embedding of \<^verbatim>\<open>sampler.c\<close>: the plugin struct becomes a record, every
  function that mutates it becomes a function from the struct to the updated struct, and
  what the C standard leaves undefined (a write past the output buffer, a read through a
  null or freed pointer, a second \<^verbatim>\<open>free\<close>) is a \<open>fault\<close>, the left summand of the
  result. Calls that leave the plugin (\<^verbatim>\<open>fprintf\<close>, \<^verbatim>\<open>zix_sem_post\<close>,
  \<^verbatim>\<open>malloc\<close>, \<^verbatim>\<open>free\<close>) are returned as a list of \<open>effect\<close>s, in program order.
\<close>

subsection \<open>Data\<close>

text \<open>
  Samples are C \<^verbatim>\<open>float\<close>s. The plugin never computes with them: it copies them and
  writes the literal zero, so any type with a zero stands for them; \<open>real\<close> is used.
  An \<^verbatim>\<open>LV2_URID\<close> is an unsigned number that is only compared for equality.
\<close>

type_synonym sample = real
type_synonym urid = nat

text \<open>The two fields of libsndfile's \<^verbatim>\<open>SF_INFO\<close> that the plugin reads
  (\<^verbatim>\<open>sf_count_t frames\<close>, a signed 64-bit count, and \<^verbatim>\<open>int channels\<close>).\<close>

record SF_INFO =
  frames :: int
  channels :: int

text \<open>
  The \<^verbatim>\<open>float* data\<close> of a sample file. The block a pointer designates is owned by
  the one struct that holds the pointer (the two \<^verbatim>\<open>SampleFile\<close>s never share a
  block), so the block is kept with the pointer: \<open>Null\<close> is the null pointer,
  \<open>Live b\<close> points to an allocated block holding \<open>b\<close>, and \<open>Dangling\<close> is
  a pointer whose block has been passed to \<^verbatim>\<open>free\<close>.
\<close>

datatype data_ptr = Null | Live "sample list" | Dangling

text \<open>
  \<^verbatim>\<open>char filepath[STRING_BUF]\<close> is kept as the bytes written so far; every byte of
  the array beyond them is the zero of the initial \<^verbatim>\<open>memset\<close>.
\<close>

record SampleFile =
  filepath :: string
  info :: SF_INFO
  data :: data_ptr

definition STRING_BUF :: nat where
  "STRING_BUF = 8192"

definition NUL :: char where
  "NUL = CHR 0x00"

text \<open>The URIDs of \<^verbatim>\<open>plugin->uris\<close> that \<^verbatim>\<open>run\<close> compares event types with.\<close>

record sampler_uris =
  atom_Blank :: urid
  atom_Resource :: urid
  midi_Event :: urid
  msg_Set :: urid

text \<open>
  One \<^verbatim>\<open>LV2_Atom_Event\<close> of the input sequence, as \<^verbatim>\<open>run\<close> can see it:
  \<open>time_frames\<close> is \<^verbatim>\<open>ev->time.audio.frames\<close>, \<open>body_type\<close> is
  \<^verbatim>\<open>ev->body.type\<close>, \<open>data0\<close> is the byte \<^verbatim>\<open>((uint8_t*)(ev + 1))[0]\<close>,
  \<open>obj_id\<close> and \<open>obj_type\<close> are the header of the body read as an
  \<^verbatim>\<open>LV2_Atom_Object\<close>. The helper \<^verbatim>\<open>lv2_object_get\<close> (atom-helpers.h) is
  not part of the plugin; what its two calls return is a field of the event:
  \<open>obj_body = None\<close> when the object has no \<^verbatim>\<open>msg_body\<close> property,
  \<open>Some None\<close> when that body has no \<^verbatim>\<open>filename_key\<close> property, and
  \<open>Some (Some str)\<close> when it has one, \<open>str\<close> being the \<^verbatim>\<open>filename->size\<close>
  bytes of its body.
\<close>

record atom_event =
  time_frames :: nat
  body_type :: urid
  data0 :: "8 word"
  obj_id :: nat
  obj_type :: urid
  obj_body :: "string option option"

text \<open>
  The \<^verbatim>\<open>Sampler\<close> struct. \<open>signal\<close> is the count of the semaphore, and
  \<open>output_port\<close> is the buffer the host connected, with what it holds. The event port
  is input only, and the host refills it before every cycle: the events of a cycle are an
  argument of \<^verbatim>\<open>run\<close>.
\<close>

record sampler =
  samp :: SampleFile
  pending_samp :: SampleFile
  signal :: nat
  pending_sample_ready :: int
  output_port :: "sample list"
  uris :: sampler_uris
  play :: bool
  frame :: int

datatype fault =
    Write_Out_Of_Bounds
  | Read_Out_Of_Bounds
  | Null_Dereference
  | Use_After_Free
  | Double_Free
  | String_Overflow

datatype message =
    Loading_sample string
  | Failed_to_open string
  | Failed_to_allocate
  | Malformed_set_message_no_body
  | Ignored_set_message_no_filename
  | Request_to_load string
  | Unknown_message_type nat
  | Unknown_event_type urid
  | Restoring_filename string
  | Could_not_initialize_semaphore
  | Could_not_initialize_worker_thread
  | Host_does_not_support_urid_map

datatype effect =
    Report message
  | Sem_Post
  | Malloc_Call nat
  | Free_Call data_ptr

subsection \<open>Strings in the path buffer\<close>

text \<open>Reading a C string out of the path buffer: up to the first zero byte. A buffer
  filled to its last byte without one makes the reader run past the array.\<close>

definition c_string :: "string \<Rightarrow> fault + string" where
  "c_string buf =
     (let p = takeWhile (\<lambda>c. c \<noteq> NUL) buf
      in if length p < STRING_BUF then Inr p else Inl String_Overflow)"

text \<open>\<^verbatim>\<open>memcpy(filepath, str, size)\<close>: the first \<open>size\<close> bytes are replaced, the
  others stay.\<close>

definition memcpy_path :: "string \<Rightarrow> string \<Rightarrow> fault + string" where
  "memcpy_path buf str =
     (if length str \<le> STRING_BUF then Inr (str @ drop (length str) buf)
      else Inl String_Overflow)"

subsection \<open>The event loop of \<^verbatim>\<open>run\<close> (lines 269-317)\<close>

text \<open>
  The body of \<^verbatim>\<open>LV2_SEQUENCE_FOREACH\<close> for one event. The loop carries the struct
  and the local \<^verbatim>\<open>start_frame\<close>; it returns them with the effects of this event.
\<close>

definition process_event ::
  "atom_event \<Rightarrow> sampler \<times> nat \<Rightarrow> fault + ((sampler \<times> nat) \<times> effect list)" where
  "process_event ev st =
     (let plugin = fst st; start_frame = snd st in
      if body_type ev = midi_Event (uris plugin) then
        (if data0 ev AND 0xF0 = 0x90
         then Inr ((plugin\<lparr>frame := 0, play := True\<rparr>, time_frames ev), [])
         else Inr ((plugin, start_frame), []))
      else if body_type ev = atom_Resource (uris plugin)
              \<or> body_type ev = atom_Blank (uris plugin) then
        (if obj_type ev = msg_Set (uris plugin) then
           (case obj_body ev of
              None \<Rightarrow> Inr ((plugin, start_frame), [Report Malformed_set_message_no_body])
            | Some None \<Rightarrow>
                Inr ((plugin, start_frame), [Report Ignored_set_message_no_filename])
            | Some (Some str) \<Rightarrow>
                (case memcpy_path (filepath (pending_samp plugin)) str of
                   Inl e \<Rightarrow> Inl e
                 | Inr buf \<Rightarrow>
                     Inr ((plugin\<lparr>pending_samp := (pending_samp plugin)\<lparr>filepath := buf\<rparr>,
                                   signal := Suc (signal plugin)\<rparr>, start_frame),
                          [Report (Request_to_load (takeWhile (\<lambda>c. c \<noteq> NUL) str)),
                           Sem_Post])))
         else Inr ((plugin, start_frame), [Report (Unknown_message_type (obj_id ev))]))
      else Inr ((plugin, start_frame), [Report (Unknown_event_type (body_type ev))]))"

fun read_events ::
  "atom_event list \<Rightarrow> sampler \<times> nat \<Rightarrow> fault + ((sampler \<times> nat) \<times> effect list)" where
  "read_events [] st = Inr (st, [])"
| "read_events (ev # evs) st =
     (case process_event ev st of
        Inl e \<Rightarrow> Inl e
      | Inr (st', fx) \<Rightarrow>
          (case read_events evs st' of
             Inl e \<Rightarrow> Inl e
           | Inr (st'', fx') \<Rightarrow> Inr (st'', fx @ fx')))"

definition is_note_on :: "sampler_uris \<Rightarrow> atom_event \<Rightarrow> bool" where
  "is_note_on u ev \<longleftrightarrow> body_type ev = midi_Event u \<and> data0 ev AND 0xF0 = 0x90"

subsection \<open>Rendering (lines 319-337 and 349-352)\<close>

text \<open>\<^verbatim>\<open>output[pos] = v\<close> and \<^verbatim>\<open>plugin->samp->data[f]\<close>.\<close>

definition write_output :: "sample list \<Rightarrow> nat \<Rightarrow> sample \<Rightarrow> fault + sample list" where
  "write_output out pos v =
     (if pos < length out then Inr (out[pos := v]) else Inl Write_Out_Of_Bounds)"

definition read_data :: "data_ptr \<Rightarrow> nat \<Rightarrow> fault + sample" where
  "read_data d f =
     (case d of
        Null \<Rightarrow> Inl Null_Dereference
      | Dangling \<Rightarrow> Inl Use_After_Free
      | Live b \<Rightarrow> if f < length b then Inr (b ! f) else Inl Read_Out_Of_Bounds)"

text \<open>
  The two zeroing loops: \<^verbatim>\<open>for (pos = 0; pos < start_frame; ++pos) output[pos] = 0;\<close>
  and \<^verbatim>\<open>for (; pos < sample_count; ++pos) output[pos] = 0.0f;\<close>. They differ in the
  bound only. Neither compares \<open>pos\<close> with the length of the buffer.
\<close>

function zero_loop :: "nat \<Rightarrow> nat \<Rightarrow> sample list \<Rightarrow> fault + (nat \<times> sample list)" where
  "zero_loop bound pos out =
     (if pos < bound then
        (case write_output out pos 0 of
           Inl e \<Rightarrow> Inl e
         | Inr out' \<Rightarrow> zero_loop bound (Suc pos) out')
      else Inr (pos, out))"
  by pat_completeness auto
termination
  by (relation "measure (\<lambda>(bound, pos, out). bound - pos)") auto

text \<open>
  \<^verbatim>\<open>for (; pos < sample_count && f < lf; ++pos, ++f) output[pos] = plugin->samp->data[f];\<close>
  Here \<open>f < lf < 2 ^ 32\<close> in the body, so \<^verbatim>\<open>++f\<close> on the \<^verbatim>\<open>uint32_t\<close> never wraps.
\<close>

function copy_loop ::
  "nat \<Rightarrow> nat \<Rightarrow> data_ptr \<Rightarrow> nat \<Rightarrow> nat \<Rightarrow> sample list \<Rightarrow> fault + (nat \<times> nat \<times> sample list)" where
  "copy_loop sample_count lf d pos f out =
     (if pos < sample_count \<and> f < lf then
        (case read_data d f of
           Inl e \<Rightarrow> Inl e
         | Inr v \<Rightarrow>
             (case write_output out pos v of
                Inl e \<Rightarrow> Inl e
              | Inr out' \<Rightarrow> copy_loop sample_count lf d (Suc pos) (Suc f) out'))
      else Inr (pos, f, out))"
  by pat_completeness auto
termination
  by (relation "measure (\<lambda>(sample_count, lf, d, pos, f, out). sample_count - pos)") auto

text \<open>The conversion of an \<^verbatim>\<open>sf_count_t\<close> to \<^verbatim>\<open>uint32_t\<close>.\<close>

definition to_uint32 :: "int \<Rightarrow> nat" where
  "to_uint32 i = nat (i mod 2 ^ 32)"

text \<open>
  \<^verbatim>\<open>if (plugin->play) { ... }\<close>: returns the struct and the local \<open>pos\<close>, which the
  last loop of \<^verbatim>\<open>run\<close> continues from.
\<close>

definition render :: "nat \<Rightarrow> nat \<Rightarrow> sampler \<Rightarrow> fault + (sampler \<times> nat)" where
  "render sample_count start_frame plugin =
     (if play plugin then
        (let f = to_uint32 (frame plugin);
             lf = to_uint32 (frames (info (samp plugin)))
         in case zero_loop start_frame 0 (output_port plugin) of
              Inl e \<Rightarrow> Inl e
            | Inr (pos, out) \<Rightarrow>
                (case copy_loop sample_count lf (data (samp plugin)) pos f out of
                   Inl e \<Rightarrow> Inl e
                 | Inr (pos', f', out') \<Rightarrow>
                     Inr (plugin\<lparr>output_port := out', frame := int f',
                                 play := (if f' = lf then False else play plugin)\<rparr>, pos')))
      else Inr (plugin, 0))"

subsection \<open>Installing the pending sample (lines 339-347)\<close>

text \<open>\<^verbatim>\<open>free(p)\<close>: nothing for the null pointer, undefined for a block already freed.\<close>

definition free_data :: "data_ptr \<Rightarrow> fault + data_ptr" where
  "free_data d =
     (case d of
        Null \<Rightarrow> Inr Null
      | Live b \<Rightarrow> Inr Dangling
      | Dangling \<Rightarrow> Inl Double_Free)"

definition install_pending :: "sampler \<Rightarrow> fault + (sampler \<times> effect list)" where
  "install_pending plugin =
     (if \<not> play plugin \<and> pending_sample_ready plugin \<noteq> 0 then
        (let tmp = samp plugin;
             plugin1 = plugin\<lparr>samp := pending_samp plugin, pending_samp := tmp,
                              pending_sample_ready := 0\<rparr>
         in case free_data (data (pending_samp plugin1)) of
              Inl e \<Rightarrow> Inl e
            | Inr d \<Rightarrow>
                Inr (plugin1\<lparr>pending_samp := (pending_samp plugin1)\<lparr>data := d\<rparr>\<rparr>,
                     [Free_Call (data (pending_samp plugin1))]))
      else Inr (plugin, []))"

subsection \<open>\<^verbatim>\<open>run\<close>\<close>

definition run ::
  "sampler \<Rightarrow> atom_event list \<Rightarrow> nat \<Rightarrow> fault + (sampler \<times> effect list)" where
  "run plugin event_port sample_count =
     (case read_events event_port (plugin, 0) of
        Inl e \<Rightarrow> Inl e
      | Inr ((plugin1, start_frame), fx1) \<Rightarrow>
          (case render sample_count start_frame plugin1 of
             Inl e \<Rightarrow> Inl e
           | Inr (plugin2, pos) \<Rightarrow>
               (case install_pending plugin2 of
                  Inl e \<Rightarrow> Inl e
                | Inr (plugin3, fx3) \<Rightarrow>
                    (case zero_loop sample_count pos (output_port plugin3) of
                       Inl e \<Rightarrow> Inl e
                     | Inr (pos', out) \<Rightarrow>
                         Inr (plugin3\<lparr>output_port := out\<rparr>, fx1 @ fx3)))))"

subsection \<open>The loader: \<^verbatim>\<open>handle_load_sample\<close> and \<^verbatim>\<open>worker_thread_main\<close>\<close>

text \<open>
  What the loader calls outside the plugin is a parameter. \<open>sf_open env path i\<close> is
  libsndfile's \<^verbatim>\<open>sf_open(path, SFM_READ, &i)\<close>: the handle, here the items that
  \<^verbatim>\<open>sf_read_float\<close> will deliver from position 0, or \<open>None\<close> for the null
  handle, and the \<^verbatim>\<open>SF_INFO\<close> as the call leaves it. \<open>malloc_ok env n\<close> tells
  whether \<^verbatim>\<open>malloc(n)\<close> returns a block, and \<open>garbage env\<close> is what a fresh block
  holds.
\<close>

record env =
  sf_open :: "string \<Rightarrow> SF_INFO \<Rightarrow> sample list option \<times> SF_INFO"
  malloc_ok :: "nat \<Rightarrow> bool"
  garbage :: "nat \<Rightarrow> sample"

text \<open>
  \<^verbatim>\<open>malloc(sizeof(float) * n)\<close>. The product is computed in \<^verbatim>\<open>size_t\<close>, 64 bits
  wide, so it is taken modulo \<open>2 ^ 64\<close>. The result is \<open>None\<close> for the null pointer,
  or the fresh block, as many floats as fit in the bytes asked for, holding garbage.
\<close>

definition malloc_size :: "int \<Rightarrow> nat" where
  "malloc_size n = nat ((4 * n) mod 2 ^ 64)"

definition malloc_floats :: "env \<Rightarrow> int \<Rightarrow> sample list option" where
  "malloc_floats env n =
     (if malloc_ok env (malloc_size n)
      then Some (map (garbage env) [0 ..< malloc_size n div 4])
      else None)"

text \<open>
  \<^verbatim>\<open>sf_seek(sample, 0, SEEK_SET); sf_read_float(sample, data, n)\<close>: the first \<open>n\<close> items
  of the file, or all of them when it has fewer, are written to the start of the block;
  the rest of the block stays as it was. Items that do not fit are written past its end.
\<close>

definition sf_read_float :: "sample list \<Rightarrow> sample list \<Rightarrow> int \<Rightarrow> fault + sample list" where
  "sf_read_float sample block n =
     (let items = take (nat n) sample
      in if length items \<le> length block then Inr (items @ drop (length items) block)
         else Inl Write_Out_Of_Bounds)"

text \<open>Line 105, the first statement of \<^verbatim>\<open>handle_load_sample\<close>.\<close>

definition load_begin :: "sampler \<Rightarrow> sampler" where
  "load_begin plugin = plugin\<lparr>pending_sample_ready := 0\<rparr>"

text \<open>
  Lines 107-137. \<^verbatim>\<open>sf_open\<close> writes through \<^verbatim>\<open>&plugin->pending_samp->info\<close>, so
  the pending struct's \<open>info\<close> is what the call left, on every path; the pointer
  returned by \<^verbatim>\<open>malloc\<close> is stored before it is tested.
\<close>

definition load_decode :: "env \<Rightarrow> sampler \<Rightarrow> fault + (sampler \<times> effect list)" where
  "load_decode env plugin =
     (case c_string (filepath (pending_samp plugin)) of
        Inl e \<Rightarrow> Inl e
      | Inr path \<Rightarrow>
          (let opened = sf_open env path (info (pending_samp plugin));
               sample = fst opened;
               info' = snd opened;
               plugin1 = plugin\<lparr>pending_samp := (pending_samp plugin)\<lparr>info := info'\<rparr>\<rparr>
           in if sample = None \<or> frames info' = 0 \<or> channels info' \<noteq> 1 then
                Inr (plugin1, [Report (Loading_sample path), Report (Failed_to_open path)])
              else
                (case malloc_floats env (frames info') of
                   None \<Rightarrow>
                     Inr (plugin1\<lparr>pending_samp := (pending_samp plugin1)\<lparr>data := Null\<rparr>\<rparr>,
                          [Report (Loading_sample path),
                           Malloc_Call (malloc_size (frames info')),
                           Report Failed_to_allocate])
                 | Some block \<Rightarrow>
                     (case sf_read_float (the sample) block (frames info') of
                        Inl e \<Rightarrow> Inl e
                      | Inr block' \<Rightarrow>
                          Inr (plugin1\<lparr>pending_samp :=
                                          (pending_samp plugin1)\<lparr>data := Live block'\<rparr>,
                                        pending_sample_ready := 1\<rparr>,
                               [Report (Loading_sample path),
                                Malloc_Call (malloc_size (frames info'))])))))"

definition handle_load_sample :: "env \<Rightarrow> sampler \<Rightarrow> fault + (sampler \<times> effect list)" where
  "handle_load_sample env plugin = load_decode env (load_begin plugin)"

text \<open>
  One turn of the loop of \<^verbatim>\<open>worker_thread_main\<close>: \<^verbatim>\<open>zix_sem_wait\<close> takes one
  unit of the semaphore, and the thread stays blocked (\<open>None\<close>) while there is none.
\<close>

definition worker_step :: "env \<Rightarrow> sampler \<Rightarrow> (fault + (sampler \<times> effect list)) option" where
  "worker_step env plugin =
     (if signal plugin = 0 then None
      else Some (handle_load_sample env (plugin\<lparr>signal := signal plugin - 1\<rparr>)))"

subsection \<open>\<^verbatim>\<open>restore\<close>\<close>

text \<open>
  \<^verbatim>\<open>strncpy(filepath, value, STRING_BUF)\<close> copies the bytes of \<open>value\<close> before its
  first zero byte, at most \<open>STRING_BUF\<close> of them, and fills the rest of the array with
  zeros.
\<close>

definition strncpy_path :: "string \<Rightarrow> string" where
  "strncpy_path src = take STRING_BUF (takeWhile (\<lambda>c. c \<noteq> NUL) src)"

text \<open>\<open>val\<close> is what the host's \<^verbatim>\<open>retrieve\<close> returns, \<open>None\<close> for the null
  pointer.\<close>

definition restore :: "env \<Rightarrow> string option \<Rightarrow> sampler \<Rightarrow> fault + (sampler \<times> effect list)" where
  "restore env val plugin =
     (case val of
        None \<Rightarrow> Inr (plugin, [])
      | Some v \<Rightarrow>
          (case handle_load_sample env
                  (plugin\<lparr>pending_samp := (pending_samp plugin)\<lparr>filepath := strncpy_path v\<rparr>\<rparr>) of
             Inl e \<Rightarrow> Inl e
           | Inr (plugin', fx) \<Rightarrow>
               Inr (plugin', Report (Restoring_filename (takeWhile (\<lambda>c. c \<noteq> NUL) v)) # fx)))"

subsection \<open>\<^verbatim>\<open>instantiate\<close> and \<^verbatim>\<open>connect_port\<close>\<close>

text \<open>What \<^verbatim>\<open>memset(p, 0, sizeof(SampleFile))\<close> leaves in a \<^verbatim>\<open>SampleFile\<close>.\<close>

definition zeroed_SampleFile :: SampleFile where
  "zeroed_SampleFile = \<lparr>filepath = [], info = \<lparr>frames = 0, channels = 0\<rparr>, data = Null\<rparr>"

definition default_sample_file :: string where
  "default_sample_file = ''monosample.wav''"

text \<open>
  \<^verbatim>\<open>strncat(filepath, src, STRING_BUF - strlen(filepath))\<close>: the bytes of \<open>src\<close>
  before its first zero byte, at most as many as the count says, are appended to the
  string in the buffer, and a zero byte after them; that byte falls outside the array
  when the result fills it.
\<close>

definition strncat_path :: "string \<Rightarrow> string \<Rightarrow> fault + string" where
  "strncat_path buf src =
     (case c_string buf of
        Inl e \<Rightarrow> Inl e
      | Inr d \<Rightarrow>
          (let r = d @ take (STRING_BUF - length d) (takeWhile (\<lambda>c. c \<noteq> NUL) src)
           in if length r < STRING_BUF then Inr r else Inl String_Overflow))"

text \<open>
  What \<^verbatim>\<open>instantiate\<close> gets from outside: whether its three \<^verbatim>\<open>malloc\<close>s, the
  semaphore and the thread succeed, and the URIDs that the host's map gives, \<open>None\<close>
  when the host has no map.
\<close>

record host =
  mallocs_ok :: bool
  sem_ok :: bool
  thread_ok :: bool
  urid_map :: "sampler_uris option"

text \<open>
  Lines 197-250 of \<^verbatim>\<open>instantiate\<close>, up to the call of \<^verbatim>\<open>handle_load_sample\<close>.
  \<open>raw\<close> is the \<^verbatim>\<open>Sampler\<close> as \<^verbatim>\<open>malloc\<close> returned it: it is not cleared,
  and the only fields that \<^verbatim>\<open>instantiate\<close> writes are the two sample files, the
  semaphore and the URIDs; \<open>play\<close>, \<open>frame\<close> and the ports keep what the memory
  held. The result is \<open>None\<close> where \<^verbatim>\<open>instantiate\<close> returns the null pointer,
  with what it printed before.
\<close>

definition instantiate_setup ::
  "host \<Rightarrow> sampler \<Rightarrow> string \<Rightarrow> (fault + sampler) option \<times> effect list" where
  "instantiate_setup host raw path =
     (if \<not> mallocs_ok host then (None, [])
      else if \<not> sem_ok host then (None, [Report Could_not_initialize_semaphore])
      else if \<not> thread_ok host then (None, [Report Could_not_initialize_worker_thread])
      else
        (case urid_map host of
           None \<Rightarrow> (None, [Report Host_does_not_support_urid_map])
         | Some u \<Rightarrow>
             (Some (case strncat_path (strncpy_path path) default_sample_file of
                      Inl e \<Rightarrow> Inl e
                    | Inr buf \<Rightarrow>
                        Inr (raw\<lparr>samp := zeroed_SampleFile,
                                  pending_samp := zeroed_SampleFile\<lparr>filepath := buf\<rparr>,
                                  signal := 0, uris := u\<rparr>)),
              [])))"

text \<open>\<^verbatim>\<open>instantiate\<close>: the setup, then the load of the default sample.\<close>

definition instantiate ::
  "host \<Rightarrow> env \<Rightarrow> sampler \<Rightarrow> string \<Rightarrow> (fault + sampler) option \<times> effect list" where
  "instantiate host env raw path =
     (case instantiate_setup host raw path of
        (None, fx) \<Rightarrow> (None, fx)
      | (Some (Inl e), fx) \<Rightarrow> (Some (Inl e), fx)
      | (Some (Inr plugin), fx) \<Rightarrow>
          (case handle_load_sample env plugin of
             Inl e \<Rightarrow> (Some (Inl e), fx)
           | Inr (plugin', fx') \<Rightarrow> (Some (Inr plugin'), fx @ fx')))"

text \<open>
  \<^verbatim>\<open>connect_port\<close> for the audio output, port 1, with the buffer the host connects;
  the events of the control port, port 0, are the argument of \<^verbatim>\<open>run\<close>.
\<close>

definition SAMPLER_OUT :: nat where
  "SAMPLER_OUT = 1"

definition connect_port :: "sampler \<Rightarrow> nat \<Rightarrow> sample list \<Rightarrow> sampler" where
  "connect_port plugin port buf =
     (if port = SAMPLER_OUT then plugin\<lparr>output_port := buf\<rparr> else plugin)"

subsection \<open>Conditions and invariants\<close>

text \<open>
  The filename of a set-message fits the path buffer, so that the \<^verbatim>\<open>memcpy\<close> of line
  309 stays inside \<^verbatim>\<open>filepath\<close>.
\<close>

definition path_fits :: "atom_event \<Rightarrow> bool" where
  "path_fits ev = (case obj_body ev of Some (Some str) \<Rightarrow> length str \<le> STRING_BUF | _ \<Rightarrow> True)"

text \<open>The samples of the active buffer: the block \<^verbatim>\<open>plugin->samp->data\<close> points to,
  none for a pointer that designates no block.\<close>

definition active_samples :: "sampler \<Rightarrow> sample list" where
  "active_samples plugin = (case data (samp plugin) of Live b \<Rightarrow> b | _ \<Rightarrow> [])"

text \<open>What a pointer is after \<^verbatim>\<open>free\<close> was called on it.\<close>

definition freed :: "data_ptr \<Rightarrow> data_ptr" where
  "freed d = (case d of Null \<Rightarrow> Null | _ \<Rightarrow> Dangling)"


text \<open>
  The events that \<^verbatim>\<open>run\<close> reports and skips: a set-message without a body or without
  a filename in its body, and an event whose type is none of the three that \<^verbatim>\<open>run\<close>
  knows; and the report that \<^verbatim>\<open>run\<close> makes of each.
\<close>

definition malformed_set_message :: "sampler_uris \<Rightarrow> atom_event \<Rightarrow> bool" where
  "malformed_set_message u ev \<longleftrightarrow>
     body_type ev \<noteq> midi_Event u
     \<and> (body_type ev = atom_Resource u \<or> body_type ev = atom_Blank u)
     \<and> obj_type ev = msg_Set u
     \<and> (obj_body ev = None \<or> obj_body ev = Some None)"

definition unrecognized_type :: "sampler_uris \<Rightarrow> atom_event \<Rightarrow> bool" where
  "unrecognized_type u ev \<longleftrightarrow>
     body_type ev \<noteq> midi_Event u \<and> body_type ev \<noteq> atom_Resource u
     \<and> body_type ev \<noteq> atom_Blank u"

definition skip_report :: "sampler_uris \<Rightarrow> atom_event \<Rightarrow> message" where
  "skip_report u ev =
     (if body_type ev = atom_Resource u \<or> body_type ev = atom_Blank u
      then (case obj_body ev of
              None \<Rightarrow> Malformed_set_message_no_body
            | Some b \<Rightarrow> Ignored_set_message_no_filename)
      else Unknown_event_type (body_type ev))"

text \<open>The load can complete: the path is a string, the file opens, has frames and one
  channel, and \<^verbatim>\<open>malloc\<close> returns a block.\<close>

definition load_succeeds :: "env \<Rightarrow> sampler \<Rightarrow> bool" where
  "load_succeeds env plugin =
     (case c_string (filepath (pending_samp plugin)) of
        Inl e \<Rightarrow> False
      | Inr path \<Rightarrow>
          (let opened = sf_open env path (info (pending_samp plugin))
           in fst opened \<noteq> None \<and> frames (snd opened) \<noteq> 0 \<and> channels (snd opened) = 1
              \<and> malloc_ok env (malloc_size (frames (snd opened)))))"

text \<open>
  The invariant of a sample buffer: its samples are none (a null pointer, a freed block,
  an empty block) or as many as its frame count.
\<close>

definition buffer_ok :: "SampleFile \<Rightarrow> bool" where
  "buffer_ok sf =
     (case data sf of
        Live b \<Rightarrow> b = [] \<or> int (length b) = frames (info sf)
      | _ \<Rightarrow> True)"

text \<open>What the plugin keeps: the active buffer is in order, and so is the pending one
  while the ready flag is set.\<close>

definition sampler_inv :: "sampler \<Rightarrow> bool" where
  "sampler_inv plugin \<longleftrightarrow>
     buffer_ok (samp plugin)
     \<and> (pending_sample_ready plugin \<noteq> 0 \<longrightarrow> buffer_ok (pending_samp plugin))"

text \<open>The frame count libsndfile reports for a file it opens is not negative and, times
  \<^verbatim>\<open>sizeof(float)\<close>, fits \<^verbatim>\<open>size_t\<close>.\<close>

definition frames_in_range :: "env \<Rightarrow> bool" where
  "frames_in_range env \<longleftrightarrow>
     (\<forall>path i. fst (sf_open env path i) \<noteq> None \<longrightarrow>
        0 \<le> frames (snd (sf_open env path i)) \<and> frames (snd (sf_open env path i)) < 2 ^ 62)"

text \<open>
  What the plugin keeps of its cursor: the frame counts it may come to play are not
  negative, and while it plays the cursor is below the frame count of the active sample,
  as \<^verbatim>\<open>run\<close> reads it.
\<close>

definition cursor_inv :: "sampler \<Rightarrow> bool" where
  "cursor_inv plugin \<longleftrightarrow>
     0 \<le> frames (info (samp plugin))
     \<and> (pending_sample_ready plugin \<noteq> 0 \<longrightarrow> 0 \<le> frames (info (pending_samp plugin)))
     \<and> (play plugin \<longrightarrow>
          0 \<le> frame plugin \<and> frame plugin < frames (info (samp plugin)) mod 2 ^ 32)"

subsection \<open>Sequences of calls\<close>

text \<open>
  The calls that change the plugin: a cycle of \<^verbatim>\<open>run\<close> with its events and length,
  a call of \<^verbatim>\<open>handle_load_sample\<close> (by \<^verbatim>\<open>instantiate\<close>, or by the worker), and a
  call of \<^verbatim>\<open>restore\<close>. \<open>exec\<close> makes them in order and stops at a fault.
\<close>

datatype call = Run "atom_event list" nat | Load | Restore "string option"

fun exec :: "env \<Rightarrow> call list \<Rightarrow> sampler \<Rightarrow> fault + sampler" where
  "exec env [] plugin = Inr plugin"
| "exec env (Run evs n # cs) plugin =
     (case run plugin evs n of Inl e \<Rightarrow> Inl e | Inr (plugin', fx) \<Rightarrow> exec env cs plugin')"
| "exec env (Load # cs) plugin =
     (case handle_load_sample env plugin of
        Inl e \<Rightarrow> Inl e
      | Inr (plugin', fx) \<Rightarrow> exec env cs plugin')"
| "exec env (Restore v # cs) plugin =
     (case restore env v plugin of Inl e \<Rightarrow> Inl e | Inr (plugin', fx) \<Rightarrow> exec env cs plugin')"

subsection \<open>Concrete inputs\<close>

text \<open>
  A URID map with four distinct numbers; a note-on event at a given offset, a set-message
  with a given result of the two lookups, and an event of a type that the plugin does not
  know.
\<close>

definition demo_uris :: sampler_uris where
  "demo_uris = \<lparr>atom_Blank = 1, atom_Resource = 2, midi_Event = 3, msg_Set = 4\<rparr>"

definition note_on_event :: "nat \<Rightarrow> atom_event" where
  "note_on_event k =
     \<lparr>time_frames = k, body_type = 3, data0 = 0x90, obj_id = 0, obj_type = 0, obj_body = None\<rparr>"

definition set_message_event :: "string option option \<Rightarrow> atom_event" where
  "set_message_event b =
     \<lparr>time_frames = 0, body_type = 2, data0 = 0, obj_id = 0, obj_type = 4, obj_body = b\<rparr>"

definition unknown_event :: atom_event where
  "unknown_event =
     \<lparr>time_frames = 0, body_type = 9, data0 = 0, obj_id = 0, obj_type = 0, obj_body = None\<rparr>"

text \<open>A four-frame mono sample and a two-frame one.\<close>

definition demo_sample :: SampleFile where
  "demo_sample =
     \<lparr>filepath = ''a.wav'', info = \<lparr>frames = 4, channels = 1\<rparr>,
      data = Live [1 / 10, 2 / 10, 3 / 10, 4 / 10]\<rparr>"

definition other_sample :: SampleFile where
  "other_sample =
     \<lparr>filepath = ''b.wav'', info = \<lparr>frames = 2, channels = 1\<rparr>, data = Live [5 / 10, 6 / 10]\<rparr>"

text \<open>
  Plugins: \<open>demo_sampler\<close> holds the four-frame sample, idle, with a six-sample output
  buffer full of stale values; \<open>demo_ready\<close> has, besides, the two-frame sample decoded
  in its pending slot and the ready flag set; \<open>stale_ready\<close> is \<open>demo_ready\<close> after a
  request for the four-frame file has put that path in the pending slot;
  and \<open>empty_sampler\<close> has the zeroed struct as its active sample.
\<close>

definition demo_sampler :: sampler where
  "demo_sampler =
     \<lparr>samp = demo_sample, pending_samp = zeroed_SampleFile, signal = 0,
      pending_sample_ready = 0, output_port = [7, 7, 7, 7, 7, 7],
      uris = demo_uris, play = False, frame = 0\<rparr>"

definition demo_ready :: sampler where
  "demo_ready = demo_sampler\<lparr>pending_samp := other_sample, pending_sample_ready := 1\<rparr>"

definition stale_ready :: sampler where
  "stale_ready = demo_ready\<lparr>pending_samp := other_sample\<lparr>filepath := ''a.wav''\<rparr>\<rparr>"

definition empty_sampler :: sampler where
  "empty_sampler = demo_sampler\<lparr>samp := zeroed_SampleFile\<rparr>"

text \<open>
  A host in which \<^verbatim>\<open>instantiate\<close> succeeds, and two states of the memory that
  \<^verbatim>\<open>malloc\<close> returns for the \<^verbatim>\<open>Sampler\<close>: all zero, and not: \<open>play\<close> set and
  7 in \<open>frame\<close>. \<open>fresh_sampler\<close> is the plugin that the setup of \<^verbatim>\<open>instantiate\<close>
  leaves in the zero memory, before its first load, for the bundle path \<^verbatim>\<open>/lv2/\<close>
  (lemma \<open>instantiate_setup_zero_memory\<close>), and \<open>stale_plugin\<close> is the plugin that
  \<^verbatim>\<open>instantiate\<close> returns in the other memory, the default sample decoded in its
  pending slot.
\<close>

definition demo_host :: host where
  "demo_host =
     \<lparr>mallocs_ok = True, sem_ok = True, thread_ok = True, urid_map = Some demo_uris\<rparr>"

definition zero_memory :: sampler where
  "zero_memory =
     \<lparr>samp = zeroed_SampleFile, pending_samp = zeroed_SampleFile, signal = 0,
      pending_sample_ready = 0, output_port = [],
      uris = \<lparr>atom_Blank = 0, atom_Resource = 0, midi_Event = 0, msg_Set = 0\<rparr>,
      play = False, frame = 0\<rparr>"

definition stale_memory :: sampler where
  "stale_memory = zero_memory\<lparr>pending_sample_ready := 5, play := True, frame := 7\<rparr>"

definition fresh_sampler :: sampler where
  "fresh_sampler =
     \<lparr>samp = zeroed_SampleFile,
      pending_samp = zeroed_SampleFile\<lparr>filepath := ''/lv2/monosample.wav''\<rparr>,
      signal = 0, pending_sample_ready = 0, output_port = [], uris = demo_uris,
      play = False, frame = 0\<rparr>"

definition stale_plugin :: sampler where
  "stale_plugin =
     \<lparr>samp = zeroed_SampleFile,
      pending_samp =
        \<lparr>filepath = ''/lv2/monosample.wav'', info = \<lparr>frames = 4, channels = 1\<rparr>,
         data = Live [1 / 10, 2 / 10, 3 / 10, 4 / 10]\<rparr>,
      signal = 0, pending_sample_ready = 1, output_port = [], uris = demo_uris,
      play = True, frame = 7\<rparr>"

text \<open>
  The world of the loader: a file system with the four-frame mono file, under two names,
  a three-frame mono file, a three-frame stereo file and nothing else, and an allocator
  that gives up to \<open>2 ^ 30\<close> bytes.
\<close>

definition demo_env :: env where
  "demo_env =
     \<lparr>sf_open = (\<lambda>path i.
        if path = ''a.wav'' \<or> path = ''/lv2/monosample.wav''
        then (Some [1 / 10, 2 / 10, 3 / 10, 4 / 10], \<lparr>frames = 4, channels = 1\<rparr>)
        else if path = ''c.wav'' then (Some [8 / 10, 9 / 10, 1], \<lparr>frames = 3, channels = 1\<rparr>)
        else if path = ''stereo.wav'' then (Some [1, 2, 3, 4, 5, 6], \<lparr>frames = 3, channels = 2\<rparr>)
        else (None, i)),
      malloc_ok = (\<lambda>n. n \<le> 2 ^ 30),
      garbage = (\<lambda>i. 7)\<rparr>"

text \<open>The calls that are cycles of \<^verbatim>\<open>run\<close>.\<close>

fun is_run :: "call \<Rightarrow> bool" where
  "is_run (Run evs n) = True"
| "is_run Load = False"
| "is_run (Restore v) = False"

text \<open>
  \<open>demo_ready\<close> after a cycle of one sample whose only event asks for \<^verbatim>\<open>c.wav\<close>, and
  that plugin after the turn of the worker that the request woke.
\<close>

definition requested_plugin :: sampler where
  "requested_plugin =
     demo_ready\<lparr>samp := other_sample\<lparr>filepath := ''c.wav''\<rparr>,
                 pending_samp := demo_sample\<lparr>data := Dangling\<rparr>,
                 signal := 1, pending_sample_ready := 0,
                 output_port := [0, 7, 7, 7, 7, 7]\<rparr>"

definition reloaded_plugin :: sampler where
  "reloaded_plugin =
     requested_plugin\<lparr>pending_samp := demo_sample, signal := 0, pending_sample_ready := 1\<rparr>"

text \<open>\<open>stale_ready\<close> once its load has begun and two cycles have run, the second with
  a note-on, before the file is decoded.\<close>

definition loading_plugin :: sampler where
  "loading_plugin =
     stale_ready\<lparr>pending_sample_ready := 0, output_port := [1 / 10, 2 / 10, 7, 7, 7, 7],
                  play := True, frame := 2\<rparr>"

section \<open>Properties\<close>

subsection \<open>The loops in closed form\<close>

declare zero_loop.simps [simp del]
declare copy_loop.simps [simp del]

lemma zero_loop_done: "bound \<le> pos \<Longrightarrow> zero_loop bound pos out = Inr (pos, out)"
  by (simp add: zero_loop.simps)

lemma zero_loop_ok:
  "pos \<le> bound \<Longrightarrow> bound \<le> length out \<Longrightarrow>
   zero_loop bound pos out = Inr (bound, take pos out @ replicate (bound - pos) 0 @ drop bound out)"
proof (induction bound pos out rule: zero_loop.induct)
  case (1 bound pos out)
  show ?case
  proof (cases "pos < bound")
    case False
    with "1.prems" have "pos = bound" by simp
    then show ?thesis by (simp add: zero_loop.simps)
  next
    case True
    with "1.prems" have lt: "pos < length out" by simp
    then have w: "write_output out pos 0 = Inr (out[pos := 0])"
      by (simp add: write_output_def)
    have ih: "zero_loop bound (Suc pos) (out[pos := 0]) =
        Inr (bound, take (Suc pos) (out[pos := 0]) @ replicate (bound - Suc pos) 0
                    @ drop bound (out[pos := 0]))"
      using "1.IH" [OF True w] True "1.prems" by simp
    have t: "take (Suc pos) (out[pos := 0]) = take pos out @ [0]"
      using lt by (simp add: take_Suc_conv_app_nth)
    have d: "drop bound (out[pos := 0]) = drop bound out"
      using True by simp
    have r: "replicate (bound - pos) (0::real) = 0 # replicate (bound - Suc pos) 0"
      using True by (cases "bound - pos") (auto simp: Suc_diff_Suc)
    show ?thesis
      using True w ih t d r by (subst zero_loop.simps) simp
  qed
qed

lemma copy_loop_done:
  "\<not> (pos < sample_count \<and> f < lf) \<Longrightarrow> copy_loop sample_count lf d pos f out = Inr (pos, f, out)"
  by (subst copy_loop.simps) auto

lemma copy_loop_ok:
  "pos + min (sample_count - pos) (lf - f) \<le> length out \<Longrightarrow>
   f + min (sample_count - pos) (lf - f) \<le> length b \<Longrightarrow>
   copy_loop sample_count lf (Live b) pos f out =
     Inr (pos + min (sample_count - pos) (lf - f), f + min (sample_count - pos) (lf - f),
          take pos out @ take (min (sample_count - pos) (lf - f)) (drop f b)
            @ drop (pos + min (sample_count - pos) (lf - f)) out)"
proof (induction sample_count lf "Live b" pos f out rule: copy_loop.induct)
  case (1 sample_count lf pos f out)
  let ?c = "min (sample_count - pos) (lf - f)"
  show ?case
  proof (cases "pos < sample_count \<and> f < lf")
    case False
    then have "?c = 0" by auto
    then show ?thesis using False by (simp add: copy_loop_done)
  next
    case True
    then have c: "?c = Suc (min (sample_count - Suc pos) (lf - Suc f))" by auto
    let ?c' = "min (sample_count - Suc pos) (lf - Suc f)"
    from c "1.prems" have lo: "pos < length out" and lb: "f < length b" by auto
    have r: "read_data (Live b) f = Inr (b ! f)" using lb by (simp add: read_data_def)
    have w: "write_output out pos (b ! f) = Inr (out[pos := b ! f])"
      using lo by (simp add: write_output_def)
    have ih: "copy_loop sample_count lf (Live b) (Suc pos) (Suc f) (out[pos := b ! f]) =
       Inr (Suc pos + ?c', Suc f + ?c',
            take (Suc pos) (out[pos := b ! f]) @ take ?c' (drop (Suc f) b)
              @ drop (Suc pos + ?c') (out[pos := b ! f]))"
      using "1.hyps" [OF True r w] "1.prems" c by simp
    have t: "take (Suc pos) (out[pos := b ! f]) = take pos out @ [b ! f]"
      using lo by (simp add: take_Suc_conv_app_nth)
    have d: "drop (Suc pos + ?c') (out[pos := b ! f]) = drop (Suc pos + ?c') out"
      by simp
    have tb: "take (Suc ?c') (drop f b) = b ! f # take ?c' (drop (Suc f) b)"
      using lb by (simp add: Cons_nth_drop_Suc [symmetric])
    show ?thesis
      apply (subst copy_loop.simps)
      using True r w ih t d tb c by simp
  qed
qed

subsection \<open>The event loop\<close>

lemma process_event_note_on:
  "is_note_on (uris s) ev \<Longrightarrow>
   process_event ev (s, sf) = Inr ((s\<lparr>frame := 0, play := True\<rparr>, time_frames ev), [])"
  by (simp add: process_event_def is_note_on_def)

lemma process_event_other:
  "\<not> is_note_on (uris s) ev \<Longrightarrow> process_event ev (s, sf) = Inr ((s', sf'), fx) \<Longrightarrow>
   play s' = play s \<and> frame s' = frame s \<and> sf' = sf"
  by (auto simp: process_event_def is_note_on_def Let_def
      split: if_splits option.splits sum.splits)

lemma process_event_frame:
  "process_event ev (s, sf) = Inr ((s', sf'), fx) \<Longrightarrow>
   samp s' = samp s \<and> output_port s' = output_port s
   \<and> uris s' = uris s \<and> pending_sample_ready s' = pending_sample_ready s
   \<and> info (pending_samp s') = info (pending_samp s)
   \<and> data (pending_samp s') = data (pending_samp s)"
  by (auto simp: process_event_def Let_def split: if_splits option.splits sum.splits)

lemma process_event_total:
  "path_fits ev \<Longrightarrow> \<exists>st' fx. process_event ev st = Inr (st', fx)"
  by (auto simp: process_event_def path_fits_def memcpy_path_def Let_def
      split: option.splits)

lemma read_events_frame:
  "read_events evs (s, sf) = Inr ((s', sf'), fx) \<Longrightarrow>
   samp s' = samp s \<and> output_port s' = output_port s
   \<and> uris s' = uris s \<and> pending_sample_ready s' = pending_sample_ready s
   \<and> info (pending_samp s') = info (pending_samp s)
   \<and> data (pending_samp s') = data (pending_samp s)"
proof (induction evs arbitrary: s sf fx)
  case Nil
  then show ?case by simp
next
  case (Cons ev evs)
  from Cons.prems obtain s1 sf1 fx1 fx2 where
    a: "process_event ev (s, sf) = Inr ((s1, sf1), fx1)" and
    b: "read_events evs (s1, sf1) = Inr ((s', sf'), fx2)"
    by (auto split: sum.splits)
  from process_event_frame [OF a] Cons.IH [OF b] show ?case by simp
qed

lemma read_events_total:
  "\<forall>ev \<in> set evs. path_fits ev \<Longrightarrow> \<exists>st' fx. read_events evs st = Inr (st', fx)"
proof (induction evs arbitrary: st)
  case Nil
  then show ?case by simp
next
  case (Cons ev evs)
  then obtain st1 fx1 where a: "process_event ev st = Inr (st1, fx1)"
    using process_event_total [of ev st] by auto
  from Cons obtain st2 fx2 where b: "read_events evs st1 = Inr (st2, fx2)"
    by fastforce
  from a b show ?case by simp
qed

lemma read_events_append:
  "read_events (xs @ ys) st =
     (case read_events xs st of
        Inl e \<Rightarrow> Inl e
      | Inr (st', fx) \<Rightarrow>
          (case read_events ys st' of
             Inl e \<Rightarrow> Inl e
           | Inr (st'', fx') \<Rightarrow> Inr (st'', fx @ fx')))"
  by (induction xs arbitrary: st) (auto split: sum.splits)

lemma read_events_no_note_on:
  "\<forall>ev \<in> set evs. \<not> is_note_on (uris s) ev \<Longrightarrow>
   read_events evs (s, sf) = Inr ((s', sf'), fx) \<Longrightarrow>
   play s' = play s \<and> frame s' = frame s \<and> sf' = sf"
proof (induction evs arbitrary: s sf fx)
  case Nil
  then show ?case by simp
next
  case (Cons ev evs)
  from Cons.prems obtain s1 sf1 fx1 fx2 where
    a: "process_event ev (s, sf) = Inr ((s1, sf1), fx1)" and
    b: "read_events evs (s1, sf1) = Inr ((s', sf'), fx2)"
    by (auto split: sum.splits)
  have u: "uris s1 = uris s" using process_event_frame [OF a] by simp
  from Cons.prems have n: "\<not> is_note_on (uris s) ev" by simp
  from Cons.IH [OF _ b] Cons.prems u process_event_other [OF n a] show ?case by simp
qed

text \<open>The events of a block whose last note-on is at offset k.\<close>

lemma read_events_last_note_on:
  assumes "is_note_on (uris s) ev"
    and "\<forall>e \<in> set evs2. \<not> is_note_on (uris s) e"
    and "\<forall>e \<in> set (evs1 @ ev # evs2). path_fits e"
  shows "\<exists>s1 fx. read_events (evs1 @ ev # evs2) (s, sf) = Inr ((s1, time_frames ev), fx)
           \<and> play s1 \<and> frame s1 = 0"
proof -
  from assms(3) obtain sa sfa fxa where a: "read_events evs1 (s, sf) = Inr ((sa, sfa), fxa)"
    using read_events_total [of evs1 "(s, sf)"] by auto
  have ua: "uris sa = uris s" using read_events_frame [OF a] by simp
  have b: "process_event ev (sa, sfa) = Inr ((sa\<lparr>frame := 0, play := True\<rparr>, time_frames ev), [])"
    using assms(1) ua by (simp add: process_event_note_on)
  from assms(3) obtain sc sfc fxc where
    c: "read_events evs2 (sa\<lparr>frame := 0, play := True\<rparr>, time_frames ev) = Inr ((sc, sfc), fxc)"
    using read_events_total [of evs2 "(sa\<lparr>frame := 0, play := True\<rparr>, time_frames ev)"] by auto
  have "play sc = True \<and> frame sc = 0 \<and> sfc = time_frames ev"
    using read_events_no_note_on [OF _ c] assms(2) ua by simp
  then show ?thesis
    using a b c by (simp add: read_events_append)
qed

subsection \<open>A block that holds a note-on\<close>

lemma to_uint32_0 [simp]: "to_uint32 0 = 0"
  by (simp add: to_uint32_def)

lemma install_pending_total:
  "data (samp s) \<noteq> Dangling \<Longrightarrow>
   \<exists>s' fx. install_pending s = Inr (s', fx) \<and> output_port s' = output_port s
      \<and> play s' = play s \<and> frame s' = frame s"
  by (cases "data (samp s)") (auto simp: install_pending_def free_data_def Let_def)

lemma copy_from_start:
  assumes "d \<noteq> Dangling" and "lf \<le> length (case d of Live b \<Rightarrow> b | _ \<Rightarrow> [])"
    and "k \<le> n" and "n \<le> length out"
  shows "copy_loop n lf d k 0 out =
     Inr (k + min (n - k) lf, min (n - k) lf,
          take k out @ take (min (n - k) lf) (case d of Live b \<Rightarrow> b | _ \<Rightarrow> [])
            @ drop (k + min (n - k) lf) out)"
proof (cases d)
  case Null
  with assms have "lf = 0" by simp
  then show ?thesis using Null by (simp add: copy_loop_done)
next
  case (Live b)
  then show ?thesis using assms copy_loop_ok [of k n lf 0 out b] by simp
next
  case Dangling
  with assms show ?thesis by simp
qed

lemma run_note_on:
  assumes ev: "read_events evs (s, 0) = Inr ((s1, k), fx1)"
    and pl: "play s1" "frame s1 = 0"
    and kn: "k \<le> n" "n \<le> length (output_port s)"
    and dd: "data (samp s) \<noteq> Dangling"
    and lf: "lf = to_uint32 (frames (info (samp s)))" "lf \<le> length (active_samples s)"
  shows "\<exists>s' fx. run s evs n = Inr (s', fx)
           \<and> take n (output_port s') =
               replicate k 0 @ take (n - k) (take lf (active_samples s)) @ replicate (n - k - lf) 0
           \<and> play s' = (n - k < lf)"
proof -
  let ?b = "active_samples s"
  let ?c = "min (n - k) lf"
  let ?out = "output_port s"
  have fr: "samp s1 = samp s" "output_port s1 = ?out"
    using read_events_frame [OF ev] by simp_all
  have z1: "zero_loop k 0 ?out = Inr (k, replicate k 0 @ drop k ?out)"
    using zero_loop_ok [of 0 k ?out] kn by simp
  let ?o1 = "replicate k 0 @ drop k ?out"
  have l1: "length ?o1 = length ?out" using kn by simp
  have c1: "copy_loop n lf (data (samp s)) k 0 ?o1 =
      Inr (k + ?c, ?c, take k ?o1 @ take ?c ?b @ drop (k + ?c) ?o1)"
    using copy_from_start [OF dd, of lf k n ?o1] lf kn l1 by (simp add: active_samples_def)
  let ?o2 = "replicate k 0 @ take ?c ?b @ drop (k + ?c) ?out"
  have o2: "take k ?o1 @ take ?c ?b @ drop (k + ?c) ?o1 = ?o2" by (simp add: add.commute)
  let ?s2 = "s1\<lparr>output_port := ?o2, frame := int ?c, play := (if ?c = lf then False else play s1)\<rparr>"
  have r: "render n k s1 = Inr (?s2, k + ?c)"
    using pl fr z1 c1 o2 lf(1) by (simp add: render_def Let_def)
  have "data (samp ?s2) \<noteq> Dangling" using dd fr by simp
  from install_pending_total [OF this] obtain s3 fx3 where
    i: "install_pending ?s2 = Inr (s3, fx3)" and o3': "output_port s3 = output_port ?s2"
    and p3': "play s3 = play ?s2"
    by blast
  have o3: "output_port s3 = ?o2" using o3' by simp
  have p3: "play s3 = (?c \<noteq> lf)" using p3' pl by auto
  have cb: "?c \<le> length ?b" using lf by simp
  have kc: "k + ?c \<le> n" using kn by simp
  have lc: "length (take ?c ?b) = ?c" using cb by (simp only: length_take min_absorb2)
  have "length ?o2 = k + (?c + (length ?out - (k + ?c)))"
    by (simp only: length_append length_replicate length_drop lc)
  then have l2: "length ?o2 = length ?out" using kn kc by linarith
  have z2: "zero_loop n (k + ?c) ?o2 =
      Inr (n, take (k + ?c) ?o2 @ replicate (n - (k + ?c)) 0 @ drop n ?o2)"
    by (rule zero_loop_ok) (use kc kn l2 in simp_all)
  let ?o4 = "take (k + ?c) ?o2 @ replicate (n - (k + ?c)) 0 @ drop n ?o2"
  have run: "run s evs n = Inr (s3\<lparr>output_port := ?o4\<rparr>, fx1 @ fx3)"
    using ev r i z2 o3 by (simp add: run_def)
  have "length (replicate k (0::real) @ take ?c ?b) = k + ?c"
    by (simp only: length_append length_replicate lc)
  then have t1: "take (k + ?c) ?o2 = replicate k 0 @ take ?c ?b"
    by (metis append.assoc append_eq_conv_conj)
  have "length (replicate k (0::real) @ take ?c ?b @ replicate (n - (k + ?c)) 0) = n"
    using kc by (simp only: length_append length_replicate lc)
  then have t2: "take n ?o4 = replicate k 0 @ take ?c ?b @ replicate (n - (k + ?c)) 0"
    unfolding t1 by (metis append.assoc append_eq_conv_conj)
  have t3: "take ?c ?b = take (n - k) (take lf ?b)"
    by (simp add: min.commute)
  have t4: "replicate (n - (k + ?c)) (0::real) = replicate (n - k - lf) 0"
    by (simp add: min_def)
  have p4: "play (s3\<lparr>output_port := ?o4\<rparr>) = (n - k < lf)"
    using p3 by (auto simp: min_def)
  have o4: "take n (output_port (s3\<lparr>output_port := ?o4\<rparr>)) =
      replicate k 0 @ take (n - k) (take lf ?b) @ replicate (n - k - lf) 0"
    using t2 by (simp only: t3 [symmetric] t4 [symmetric]) simp
  show ?thesis
    using run p4 o4 by blast
qed

lemma to_uint32_small: "n < 2 ^ 32 \<Longrightarrow> to_uint32 (int n) = n"
proof -
  assume n: "n < 2 ^ 32"
  have "int n mod 2 ^ 32 = int (n mod 2 ^ 32)"
    by (simp add: zmod_int)
  then show ?thesis
    using n by (simp add: to_uint32_def)
qed

text \<open>
  Claim C1. In a block of \<open>n\<close> samples whose events hold a note-on at offset \<open>k\<close>,
  with no note-on after it, \<^verbatim>\<open>run\<close> writes \<open>k\<close> zeros, then the samples of the
  active buffer from frame 0, as many as fit in the \<open>n - k\<close> places left, then zeros up
  to \<open>n\<close>; it leaves the plugin playing exactly when the buffer was not exhausted. The
  active buffer holds as many samples as its frame count says, fewer than \<open>2 ^ 32\<close>, and
  the offset lies in the block. The four-frame example of the claim is the witness: six
  samples, the note-on at offset 0, the output \<open>[0.1, 0.2, 0.3, 0.4, 0, 0]\<close>, and the plugin
  idle at the end.
\<close>

theorem render_note_on_block:
  assumes "is_note_on (uris s) ev"
    and "\<forall>e \<in> set evs2. \<not> is_note_on (uris s) e"
    and "\<forall>e \<in> set (evs1 @ ev # evs2). path_fits e"
    and "time_frames ev \<le> n" and "n \<le> length (output_port s)"
    and "data (samp s) \<noteq> Dangling"
    and "frames (info (samp s)) = int (length (active_samples s))"
    and "length (active_samples s) < 2 ^ 32"
  shows "\<exists>s' fx. run s (evs1 @ ev # evs2) n = Inr (s', fx)
     \<and> take n (output_port s') =
         replicate (time_frames ev) 0 @ take (n - time_frames ev) (active_samples s)
           @ replicate (n - time_frames ev - length (active_samples s)) 0
     \<and> (play s' \<longleftrightarrow> n - time_frames ev < length (active_samples s))"
proof -
  obtain s1 fx1 where
    ev: "read_events (evs1 @ ev # evs2) (s, 0) = Inr ((s1, time_frames ev), fx1)"
    and pl: "play s1" "frame s1 = 0"
    using read_events_last_note_on [of s ev evs2 evs1 0] assms(1-3) by auto
  have lf: "length (active_samples s) = to_uint32 (frames (info (samp s)))"
    using assms(7,8) by (simp add: to_uint32_small)
  show ?thesis
    using run_note_on [OF ev pl assms(4,5,6) lf] by simp
qed

theorem render_note_on_block_witness:
  "(case run demo_sampler [note_on_event 0] 6 of
      Inl e \<Rightarrow> False
    | Inr (s', fx) \<Rightarrow> take 6 (output_port s') = [1 / 10, 2 / 10, 3 / 10, 4 / 10, 0, 0] \<and> \<not> play s')"
proof -
  have "\<exists>s' fx. run demo_sampler ([] @ note_on_event 0 # []) 6 = Inr (s', fx)
     \<and> take 6 (output_port s') =
         replicate (time_frames (note_on_event 0)) 0
           @ take (6 - time_frames (note_on_event 0)) (active_samples demo_sampler)
           @ replicate (6 - time_frames (note_on_event 0) - length (active_samples demo_sampler)) 0
     \<and> (play s' \<longleftrightarrow> 6 - time_frames (note_on_event 0) < length (active_samples demo_sampler))"
    by (rule render_note_on_block)
       (simp_all add: demo_sampler_def demo_sample_def demo_uris_def note_on_event_def
         is_note_on_def path_fits_def active_samples_def)
  then show ?thesis
    by (auto simp: demo_sampler_def demo_sample_def note_on_event_def active_samples_def
        numeral_eq_Suc)
qed

subsection \<open>Note-on\<close>

text \<open>
  Claim C8. Whatever the playback state, a note-on event leaves the plugin playing with
  its cursor at frame 0 and takes the event's offset as the start of the note; a second
  note-on right after a first gives what the second alone gives, so each one restarts the
  sample from frame 0.
\<close>

theorem note_on_restarts:
  assumes "is_note_on (uris s) ev"
  shows "process_event ev (s, sf) = Inr ((s\<lparr>frame := 0, play := True\<rparr>, time_frames ev), [])
     \<and> (\<forall>ev'. is_note_on (uris s) ev' \<longrightarrow>
           read_events [ev, ev'] (s, sf) = read_events [ev'] (s, sf))"
  using assms by (simp add: process_event_note_on)

theorem note_on_restarts_witness:
  "process_event (note_on_event 2) (demo_sampler\<lparr>play := True, frame := 3\<rparr>, 0) =
     Inr ((demo_sampler\<lparr>play := True, frame := 0\<rparr>, 2), [])
   \<and> read_events [note_on_event 2, note_on_event 5] (demo_sampler\<lparr>play := True, frame := 3\<rparr>, 0) =
     Inr ((demo_sampler\<lparr>play := True, frame := 0\<rparr>, 5), [])"
  using note_on_restarts [of "demo_sampler\<lparr>play := True, frame := 3\<rparr>" "note_on_event 2" 0]
  by (simp add: is_note_on_def demo_sampler_def demo_uris_def note_on_event_def
      process_event_def)

subsection \<open>The phases of \<^verbatim>\<open>run\<close>\<close>

lemma run_phases:
  assumes "run s evs n = Inr (s', fx)"
  obtains s1 k fx1 s2 pos s3 fx3 pos' out where
    "read_events evs (s, 0) = Inr ((s1, k), fx1)"
    "render n k s1 = Inr (s2, pos)"
    "install_pending s2 = Inr (s3, fx3)"
    "zero_loop n pos (output_port s3) = Inr (pos', out)"
    "s' = s3\<lparr>output_port := out\<rparr>" "fx = fx1 @ fx3"
  using assms by (auto simp: run_def split: sum.splits prod.splits)

lemma render_frame:
  "render n k s1 = Inr (s2, pos) \<Longrightarrow>
   samp s2 = samp s1 \<and> pending_samp s2 = pending_samp s1
   \<and> pending_sample_ready s2 = pending_sample_ready s1 \<and> signal s2 = signal s1
   \<and> uris s2 = uris s1 \<and> (play s2 \<longrightarrow> play s1)"
  by (auto simp: render_def Let_def split: if_splits sum.splits prod.splits)

lemma install_pending_cases:
  "install_pending s2 = Inr (s3, fx3) \<Longrightarrow>
   play s3 = play s2 \<and> frame s3 = frame s2 \<and> output_port s3 = output_port s2
   \<and> uris s3 = uris s2 \<and> signal s3 = signal s2
   \<and> (if \<not> play s2 \<and> pending_sample_ready s2 \<noteq> 0
       then samp s3 = pending_samp s2 \<and> pending_samp s3 = (samp s2)\<lparr>data := freed (data (samp s2))\<rparr>
            \<and> pending_sample_ready s3 = 0 \<and> fx3 = [Free_Call (data (samp s2))]
       else s3 = s2 \<and> fx3 = [])"
  by (cases "data (samp s2)")
     (auto simp: install_pending_def free_data_def freed_def Let_def split: if_splits)

lemma run_install_cases:
  assumes "run s evs n = Inr (s', fx)"
  shows "if \<not> play s' \<and> pending_sample_ready s \<noteq> 0
     then info (samp s') = info (pending_samp s) \<and> data (samp s') = data (pending_samp s)
        \<and> pending_samp s' = (samp s)\<lparr>data := freed (data (samp s))\<rparr>
        \<and> pending_sample_ready s' = 0
     else samp s' = samp s
        \<and> info (pending_samp s') = info (pending_samp s)
        \<and> data (pending_samp s') = data (pending_samp s)
        \<and> pending_sample_ready s' = pending_sample_ready s"
proof -
  from assms obtain s1 k fx1 s2 pos s3 fx3 pos' out where
    a: "read_events evs (s, 0) = Inr ((s1, k), fx1)" and
    b: "render n k s1 = Inr (s2, pos)" and
    c: "install_pending s2 = Inr (s3, fx3)" and
    z: "zero_loop n pos (output_port s3) = Inr (pos', out)" and
    d: "s' = s3\<lparr>output_port := out\<rparr>"
    by (rule run_phases)
  note fa = read_events_frame [OF a] and fb = render_frame [OF b]
    and fc = install_pending_cases [OF c]
  show ?thesis
  proof (cases "\<not> play s' \<and> pending_sample_ready s \<noteq> 0")
    case True
    then have "\<not> play s2 \<and> pending_sample_ready s2 \<noteq> 0"
      using fa fb fc d by simp
    then show ?thesis using True fa fb fc d by simp
  next
    case False
    then have "\<not> (\<not> play s2 \<and> pending_sample_ready s2 \<noteq> 0)"
      using fa fb fc d by simp
    then have "s3 = s2" using fc by simp
    then show ?thesis using False fa fb d by simp
  qed
qed

text \<open>
  Claim C2. \<^verbatim>\<open>run\<close> exchanges the active and the pending sample exactly when the
  plugin is not playing once the block is rendered and the ready flag was set on entry;
  the exchange clears the flag. In every other case, in particular while the plugin is
  still playing at the end of the block, the active sample is the one \<^verbatim>\<open>run\<close> was
  entered with and the flag is as it was, so a sample that became ready during a note
  waits until a block ends idle.
\<close>

theorem install_only_idle_and_ready:
  assumes "run s evs n = Inr (s', fx)"
  shows "if \<not> play s' \<and> pending_sample_ready s \<noteq> 0
     then info (samp s') = info (pending_samp s) \<and> data (samp s') = data (pending_samp s)
        \<and> pending_samp s' = (samp s)\<lparr>data := freed (data (samp s))\<rparr>
        \<and> pending_sample_ready s' = 0
     else samp s' = samp s
        \<and> info (pending_samp s') = info (pending_samp s)
        \<and> data (pending_samp s') = data (pending_samp s)
        \<and> pending_sample_ready s' = pending_sample_ready s"
  using assms by (rule run_install_cases)

lemma run_demo_ready_2:
  "run demo_ready [note_on_event 0] 2 =
     Inr (demo_ready\<lparr>output_port := [1 / 10, 2 / 10, 7, 7, 7, 7], frame := 2, play := True\<rparr>, [])"
  by (simp add: run_def render_def install_pending_def process_event_def zero_loop.simps
      copy_loop.simps read_data_def write_output_def to_uint32_def demo_ready_def
      demo_sampler_def demo_sample_def other_sample_def demo_uris_def note_on_event_def Let_def)

lemma run_demo_ready_6:
  "run demo_ready [note_on_event 0] 6 =
     Inr (demo_ready\<lparr>samp := other_sample, pending_samp := demo_sample\<lparr>data := Dangling\<rparr>,
            pending_sample_ready := 0,
            output_port := [1 / 10, 2 / 10, 3 / 10, 4 / 10, 0, 0], frame := 4, play := False\<rparr>,
          [Free_Call (Live [1 / 10, 2 / 10, 3 / 10, 4 / 10])])"
  by (simp add: run_def render_def install_pending_def process_event_def zero_loop.simps
      copy_loop.simps read_data_def write_output_def free_data_def to_uint32_def demo_ready_def
      demo_sampler_def demo_sample_def other_sample_def demo_uris_def note_on_event_def Let_def)

theorem install_only_idle_and_ready_witness:
  "(case run demo_ready [note_on_event 0] 2 of
      Inl e \<Rightarrow> False
    | Inr (s', fx) \<Rightarrow> play s' \<and> samp s' = demo_sample \<and> pending_sample_ready s' = 1)
   \<and> (case run demo_ready [note_on_event 0] 6 of
      Inl e \<Rightarrow> False
    | Inr (s', fx) \<Rightarrow> \<not> play s' \<and> samp s' = other_sample \<and> pending_sample_ready s' = 0)"
proof -
  note a = install_only_idle_and_ready [OF run_demo_ready_2]
    and b = install_only_idle_and_ready [OF run_demo_ready_6]
  show ?thesis
    unfolding run_demo_ready_2 run_demo_ready_6
    using a b by (simp add: demo_ready_def demo_sampler_def)
qed

subsection \<open>The cursor\<close>

lemma copy_loop_cursor:
  "copy_loop n lf d pos f out = Inr (pos', f', out') \<Longrightarrow> f \<le> lf \<Longrightarrow> f' \<le> lf"
proof (induction n lf d pos f out rule: copy_loop.induct)
  case (1 n lf d pos f out)
  show ?case
  proof (cases "pos < n \<and> f < lf")
    case False
    with "1.prems" show ?thesis by (simp add: copy_loop_done)
  next
    case True
    with "1.prems"(1) obtain v out1 where
      r: "read_data d f = Inr v" and w: "write_output out pos v = Inr out1" and
      c: "copy_loop n lf d (Suc pos) (Suc f) out1 = Inr (pos', f', out')"
      by (subst (asm) copy_loop.simps) (auto split: sum.splits)
    from "1.IH" [OF True r w c] True show ?thesis by simp
  qed
qed

lemma render_cursor:
  assumes "render n k s1 = Inr (s2, pos)"
    and "play s1 \<longrightarrow> to_uint32 (frame s1) \<le> to_uint32 (frames (info (samp s1)))"
  shows "(play s2 \<longrightarrow> 0 \<le> frame s2 \<and> frame s2 < int (to_uint32 (frames (info (samp s1)))))
       \<and> (play s1 \<and> \<not> play s2 \<longrightarrow> frame s2 = int (to_uint32 (frames (info (samp s1)))))"
proof (cases "play s1")
  case False
  with assms(1) show ?thesis by (simp add: render_def)
next
  case True
  let ?lf = "to_uint32 (frames (info (samp s1)))"
  from True assms(1) obtain p1 o1 p2 f2 o2 where
    c: "copy_loop n ?lf (data (samp s1)) p1 (to_uint32 (frame s1)) o1 = Inr (p2, f2, o2)" and
    s2: "s2 = s1\<lparr>output_port := o2, frame := int f2,
                 play := (if f2 = ?lf then False else play s1)\<rparr>"
    by (auto simp: render_def Let_def split: sum.splits prod.splits)
  have "f2 \<le> ?lf" using copy_loop_cursor [OF c] assms(2) True by simp
  then show ?thesis using s2 True by auto
qed

lemma read_events_playback:
  "read_events evs (s, sf) = Inr ((s1, sf1), fx) \<Longrightarrow>
   (play s1 = play s \<and> frame s1 = frame s \<and> (\<forall>e \<in> set evs. \<not> is_note_on (uris s) e))
   \<or> (play s1 \<and> frame s1 = 0 \<and> (\<exists>e \<in> set evs. is_note_on (uris s) e))"
proof (induction evs arbitrary: s sf fx)
  case Nil
  then show ?case by simp
next
  case (Cons ev evs)
  from Cons.prems obtain sa sfa fxa fxb where
    a: "process_event ev (s, sf) = Inr ((sa, sfa), fxa)" and
    b: "read_events evs (sa, sfa) = Inr ((s1, sf1), fxb)"
    by (auto split: sum.splits)
  have u: "uris sa = uris s" using process_event_frame [OF a] by simp
  note ih = Cons.IH [OF b, unfolded u]
  show ?case
  proof (cases "is_note_on (uris s) ev")
    case True
    then have "play sa \<and> frame sa = 0"
      using a True by (auto simp: process_event_note_on)
    with ih True show ?thesis by auto
  next
    case False
    from process_event_other [OF False a] ih False show ?thesis by auto
  qed
qed

lemma to_uint32_le: "0 \<le> i \<Longrightarrow> int (to_uint32 i) \<le> i"
  by (simp add: to_uint32_def zmod_le_nonneg_dividend)

lemma int_to_uint32: "int (to_uint32 i) = i mod 2 ^ 32"
  by (simp add: to_uint32_def)

lemma run_cursor:
  assumes "run s evs n = Inr (s', fx)"
    and "play s \<longrightarrow> to_uint32 (frame s) \<le> to_uint32 (frames (info (samp s)))"
  shows "(play s' \<longrightarrow> 0 \<le> frame s' \<and> frame s' < frames (info (samp s)) mod 2 ^ 32
            \<and> samp s' = samp s)
       \<and> ((play s \<or> (\<exists>e \<in> set evs. is_note_on (uris s) e)) \<and> \<not> play s'
            \<longrightarrow> frame s' = frames (info (samp s)) mod 2 ^ 32)"
proof -
  from assms(1) obtain s1 k fx1 s2 pos s3 fx3 pos' out where
    a: "read_events evs (s, 0) = Inr ((s1, k), fx1)" and
    b: "render n k s1 = Inr (s2, pos)" and
    c: "install_pending s2 = Inr (s3, fx3)" and
    z: "zero_loop n pos (output_port s3) = Inr (pos', out)" and
    d: "s' = s3\<lparr>output_port := out\<rparr>"
    by (rule run_phases)
  note fa = read_events_frame [OF a] and pa = read_events_playback [OF a]
    and fc = install_pending_cases [OF c]
  let ?lf = "to_uint32 (frames (info (samp s)))"
  have pre: "play s1 \<longrightarrow> to_uint32 (frame s1) \<le> to_uint32 (frames (info (samp s1)))"
    using pa fa assms(2) by auto
  note rc = render_cursor [OF b pre]
  have p': "play s' = play s2" "frame s' = frame s2" using fc d by simp_all
  have one: "play s' \<longrightarrow> 0 \<le> frame s' \<and> frame s' < frames (info (samp s)) mod 2 ^ 32
      \<and> samp s' = samp s"
  proof
    assume pl: "play s'"
    then have "s3 = s2" using fc p' by simp
    then have sm: "samp s' = samp s" using d fa render_frame [OF b] by simp
    have "frame s2 < int ?lf \<and> 0 \<le> frame s2" using rc pl p' fa by simp
    then show "0 \<le> frame s' \<and> frame s' < frames (info (samp s)) mod 2 ^ 32 \<and> samp s' = samp s"
      using p' sm by (simp add: int_to_uint32)
  qed
  have two: "(play s \<or> (\<exists>e \<in> set evs. is_note_on (uris s) e)) \<and> \<not> play s'
            \<longrightarrow> frame s' = frames (info (samp s)) mod 2 ^ 32"
  proof
    assume h: "(play s \<or> (\<exists>e \<in> set evs. is_note_on (uris s) e)) \<and> \<not> play s'"
    then have "play s1" using pa by auto
    then have "frame s2 = int ?lf" using rc h p' fa by simp
    then show "frame s' = frames (info (samp s)) mod 2 ^ 32"
      using p' by (simp add: int_to_uint32)
  qed
  from one two show ?thesis by blast
qed

text \<open>
  Where \<^verbatim>\<open>run\<close> finds the cursor within the frame count, it keeps it so: if the
  cursor on entry is not beyond the frame count while the plugin plays, and the frame
  count is not negative, then a plugin that plays after \<^verbatim>\<open>run\<close> has its cursor at
  least 0 and below the frame count of the active sample, and a plugin that played during
  the block and is idle at the end has its cursor at the frame count (as the
  \<^verbatim>\<open>uint32_t\<close> that \<^verbatim>\<open>run\<close> compares it with). A note-on on a sample of no
  frames leaves the plugin idle (lemma \<open>run_empty_sampler\<close>).
\<close>

lemma run_keeps_cursor_below_frame_count:
  assumes "run s evs n = Inr (s', fx)"
    and "play s \<longrightarrow> to_uint32 (frame s) \<le> to_uint32 (frames (info (samp s)))"
    and "0 \<le> frames (info (samp s))"
  shows "(play s' \<longrightarrow> 0 \<le> frame s' \<and> frame s' < frames (info (samp s')))
       \<and> ((play s \<or> (\<exists>e \<in> set evs. is_note_on (uris s) e)) \<and> \<not> play s'
            \<longrightarrow> frame s' = frames (info (samp s)) mod 2 ^ 32)"
proof -
  have "frames (info (samp s)) mod 2 ^ 32 \<le> frames (info (samp s))"
    using assms(3) by (simp add: zmod_le_nonneg_dividend)
  then show ?thesis
    using run_cursor [OF assms(1,2)] by auto
qed

lemma run_empty_sampler:
  "run empty_sampler [note_on_event 0] 6 =
     Inr (empty_sampler\<lparr>output_port := [0, 0, 0, 0, 0, 0], frame := 0, play := False\<rparr>, [])"
  by (simp add: run_def render_def install_pending_def process_event_def zero_loop.simps
      copy_loop.simps read_data_def write_output_def to_uint32_def empty_sampler_def
      demo_sampler_def zeroed_SampleFile_def demo_uris_def note_on_event_def Let_def)


subsection \<open>Memory released inside \<^verbatim>\<open>run\<close>\<close>

text \<open>
  Claim C3. The claim is that \<^verbatim>\<open>run\<close> never releases memory. Line 346 calls
  \<^verbatim>\<open>free\<close> on the data of the displaced sample inside \<^verbatim>\<open>run\<close>, under the comment
  \<^verbatim>\<open>FIXME: non-realtime!\<close>: an idle plugin with a ready pending sample, run for one
  sample with no events, installs the pending sample and frees the four frames of the old
  one, whose pointer is left dangling in the pending slot.
\<close>

theorem run_frees_displaced_buffer:
  "run demo_ready [] 1 =
     Inr (demo_ready\<lparr>samp := other_sample, pending_samp := demo_sample\<lparr>data := Dangling\<rparr>,
            pending_sample_ready := 0, output_port := [0, 7, 7, 7, 7, 7]\<rparr>,
          [Free_Call (Live [1 / 10, 2 / 10, 3 / 10, 4 / 10])])"
  by (simp add: run_def render_def install_pending_def zero_loop.simps write_output_def
      free_data_def demo_ready_def demo_sampler_def demo_sample_def other_sample_def Let_def)

subsection \<open>The loader\<close>

lemma handle_load_sample_frame:
  "handle_load_sample env s = Inr (s', fx) \<Longrightarrow>
   samp s' = samp s \<and> play s' = play s \<and> frame s' = frame s \<and> signal s' = signal s
   \<and> output_port s' = output_port s \<and> uris s' = uris s
   \<and> filepath (pending_samp s') = filepath (pending_samp s)"
  by (auto simp: handle_load_sample_def load_decode_def load_begin_def Let_def
      split: sum.splits if_splits option.splits)

lemma handle_load_sample_ready:
  "handle_load_sample env s = Inr (s', fx) \<Longrightarrow>
   pending_sample_ready s' = (if load_succeeds env s then 1 else 0)"
  by (auto simp: handle_load_sample_def load_decode_def load_begin_def load_succeeds_def
      malloc_floats_def Let_def split: sum.splits if_splits option.splits)


lemma handle_load_sample_done:
  assumes "handle_load_sample env s = Inr (s', fx)" and "load_succeeds env s"
  shows "\<exists>path sample block block'.
       c_string (filepath (pending_samp s)) = Inr path
     \<and> fst (sf_open env path (info (pending_samp s))) = Some sample
     \<and> info (pending_samp s') = snd (sf_open env path (info (pending_samp s)))
     \<and> malloc_floats env (frames (info (pending_samp s'))) = Some block
     \<and> sf_read_float sample block (frames (info (pending_samp s'))) = Inr block'
     \<and> data (pending_samp s') = Live block'"
  using assms
  by (auto simp: handle_load_sample_def load_decode_def load_begin_def load_succeeds_def
      malloc_floats_def Let_def split: sum.splits if_splits option.splits)

lemma load_fresh_sampler:
  "handle_load_sample demo_env fresh_sampler =
     Inr (fresh_sampler\<lparr>pending_samp :=
            \<lparr>filepath = ''/lv2/monosample.wav'', info = \<lparr>frames = 4, channels = 1\<rparr>,
             data = Live [1 / 10, 2 / 10, 3 / 10, 4 / 10]\<rparr>,
            pending_sample_ready := 1\<rparr>,
          [Report (Loading_sample ''/lv2/monosample.wav''), Malloc_Call 16])"
  by (simp add: handle_load_sample_def load_decode_def load_begin_def malloc_floats_def
      malloc_size_def sf_read_float_def c_string_def STRING_BUF_def NUL_def demo_env_def
      fresh_sampler_def zeroed_SampleFile_def Let_def)






subsection \<open>The sample buffer invariant\<close>

lemma buffer_ok_cong:
  "info a = info b \<Longrightarrow> data a = data b \<Longrightarrow> buffer_ok a = buffer_ok b"
  by (simp add: buffer_ok_def split: data_ptr.splits)

lemma buffer_ok_freed: "buffer_ok (sf\<lparr>data := freed (data sf)\<rparr>)"
  by (cases "data sf") (simp_all add: buffer_ok_def freed_def)

lemma run_inv:
  assumes "sampler_inv s" and "run s evs n = Inr (s', fx)"
  shows "sampler_inv s'"
proof (cases "\<not> play s' \<and> pending_sample_ready s \<noteq> 0")
  case True
  with run_install_cases [OF assms(2)] have
    i: "info (samp s') = info (pending_samp s)" "data (samp s') = data (pending_samp s)"
    and r: "pending_sample_ready s' = 0"
    by simp_all
  have "buffer_ok (pending_samp s)" using assms(1) True by (simp add: sampler_inv_def)
  then have "buffer_ok (samp s')" using buffer_ok_cong [OF i] by simp
  then show ?thesis using r by (simp add: sampler_inv_def)
next
  case False
  with run_install_cases [OF assms(2)] have
    a: "samp s' = samp s" and
    i: "info (pending_samp s') = info (pending_samp s)"
       "data (pending_samp s') = data (pending_samp s)" and
    r: "pending_sample_ready s' = pending_sample_ready s"
    by (simp_all split: if_splits)
  show ?thesis
    using assms(1) a r buffer_ok_cong [OF i] by (simp add: sampler_inv_def)
qed

lemma malloc_size_in_range: "0 \<le> n \<Longrightarrow> n < 2 ^ 62 \<Longrightarrow> malloc_size n div 4 = nat n"
  by (simp add: malloc_size_def)

lemma sf_read_float_length: "sf_read_float sample block n = Inr block' \<Longrightarrow> length block' = length block"
  by (auto simp: sf_read_float_def Let_def split: if_splits)

lemma malloc_floats_length:
  "malloc_floats env n = Some block \<Longrightarrow> length block = malloc_size n div 4"
  by (auto simp: malloc_floats_def split: if_splits)

lemma handle_load_sample_inv:
  assumes "frames_in_range env" and "sampler_inv s"
    and "handle_load_sample env s = Inr (s', fx)"
  shows "sampler_inv s'"
proof -
  have a: "samp s' = samp s" using handle_load_sample_frame [OF assms(3)] by simp
  have "buffer_ok (pending_samp s')" if "pending_sample_ready s' \<noteq> 0"
  proof -
    have ok: "load_succeeds env s"
      using handle_load_sample_ready [OF assms(3)] that by (simp split: if_splits)
    from handle_load_sample_done [OF assms(3) ok] obtain path sample block block' where
      o: "fst (sf_open env path (info (pending_samp s))) = Some sample" and
      i: "info (pending_samp s') = snd (sf_open env path (info (pending_samp s)))" and
      m: "malloc_floats env (frames (info (pending_samp s'))) = Some block" and
      r: "sf_read_float sample block (frames (info (pending_samp s'))) = Inr block'" and
      d: "data (pending_samp s') = Live block'"
      by blast
    from assms(1) o i have
      "0 \<le> frames (info (pending_samp s'))" "frames (info (pending_samp s')) < 2 ^ 62"
      by (simp_all add: frames_in_range_def)
    then have "length block' = nat (frames (info (pending_samp s')))"
      using malloc_size_in_range sf_read_float_length [OF r] malloc_floats_length [OF m]
      by simp
    then show ?thesis
      using d \<open>0 \<le> frames (info (pending_samp s'))\<close> by (simp add: buffer_ok_def)
  qed
  then show ?thesis using assms(2) a by (simp add: sampler_inv_def)
qed

lemma restore_inv:
  assumes "frames_in_range env" and "sampler_inv s" and "restore env v s = Inr (s', fx)"
  shows "sampler_inv s'"
proof (cases v)
  case None
  with assms show ?thesis by (simp add: restore_def)
next
  case (Some p)
  let ?s = "s\<lparr>pending_samp := (pending_samp s)\<lparr>filepath := strncpy_path p\<rparr>\<rparr>"
  from assms(3) Some obtain fx' where l: "handle_load_sample env ?s = Inr (s', fx')"
    by (auto simp: restore_def split: sum.splits)
  have "sampler_inv ?s"
    using assms(2) by (simp add: sampler_inv_def buffer_ok_def split: data_ptr.splits)
  from handle_load_sample_inv [OF assms(1) this l] show ?thesis .
qed

lemma exec_inv:
  "frames_in_range env \<Longrightarrow> sampler_inv s \<Longrightarrow> exec env cs s = Inr s' \<Longrightarrow> sampler_inv s'"
proof (induction cs arbitrary: s)
  case Nil
  then show ?case by simp
next
  case (Cons c cs)
  show ?case
  proof (cases c)
    case (Run evs n)
    with Cons.prems obtain s1 fx where
      a: "run s evs n = Inr (s1, fx)" and b: "exec env cs s1 = Inr s'"
      by (auto split: sum.splits)
    from Cons.IH [OF Cons.prems(1) run_inv [OF Cons.prems(2) a] b] show ?thesis .
  next
    case Load
    with Cons.prems obtain s1 fx where
      a: "handle_load_sample env s = Inr (s1, fx)" and b: "exec env cs s1 = Inr s'"
      by (auto split: sum.splits)
    from Cons.IH [OF Cons.prems(1) handle_load_sample_inv [OF Cons.prems(1,2) a] b]
    show ?thesis .
  next
    case (Restore v)
    with Cons.prems obtain s1 fx where
      a: "restore env v s = Inr (s1, fx)" and b: "exec env cs s1 = Inr s'"
      by (auto split: sum.splits)
    from Cons.IH [OF Cons.prems(1) restore_inv [OF Cons.prems(1,2) a] b] show ?thesis .
  qed
qed

lemma exec_load_restore_stereo:
  "exec demo_env [Load, Restore (Some ''stereo.wav'')] fresh_sampler =
     Inr (fresh_sampler\<lparr>pending_samp :=
            \<lparr>filepath = ''stereo.wav'', info = \<lparr>frames = 3, channels = 2\<rparr>,
             data = Live [1 / 10, 2 / 10, 3 / 10, 4 / 10]\<rparr>\<rparr>)"
  by (simp add: load_fresh_sampler restore_def strncpy_path_def)
     (simp add: handle_load_sample_def load_decode_def load_begin_def c_string_def
      STRING_BUF_def NUL_def demo_env_def fresh_sampler_def zeroed_SampleFile_def Let_def)

lemma exec_load_run_restore:
  "exec demo_env [Load, Run [] 0, Restore (Some ''stereo.wav'')] fresh_sampler =
     Inr (fresh_sampler\<lparr>samp :=
            \<lparr>filepath = ''/lv2/monosample.wav'', info = \<lparr>frames = 4, channels = 1\<rparr>,
             data = Live [1 / 10, 2 / 10, 3 / 10, 4 / 10]\<rparr>,
            pending_samp :=
            \<lparr>filepath = ''stereo.wav'', info = \<lparr>frames = 3, channels = 2\<rparr>, data = Null\<rparr>\<rparr>)"
  by (simp add: restore_def strncpy_path_def run_def render_def install_pending_def
      free_data_def zero_loop.simps handle_load_sample_def load_decode_def load_begin_def
      malloc_floats_def malloc_size_def sf_read_float_def c_string_def
      STRING_BUF_def NUL_def demo_env_def fresh_sampler_def zeroed_SampleFile_def Let_def)

lemma frames_in_range_demo_env: "frames_in_range demo_env"
  by (simp add: frames_in_range_def demo_env_def)

lemma sampler_inv_fresh_sampler: "sampler_inv fresh_sampler"
  by (simp add: sampler_inv_def buffer_ok_def fresh_sampler_def zeroed_SampleFile_def)

text \<open>
  Claim C6, as the code has it. The claim is that both buffers keep the invariant after
  any sequence of loads and swaps. The pending buffer does not: \<^verbatim>\<open>sf_open\<close> writes the
  new file's frame count into its \<open>info\<close> before the file is checked, and a load that
  then fails leaves the samples of the load before. After the load of a four-frame mono
  file and the restore of a three-frame stereo file, the pending buffer has four samples
  and a frame count of three. What every call keeps: the active buffer satisfies the
  invariant, and the pending buffer does as long as the ready flag is set, so that
  nothing else is ever installed.
\<close>

theorem active_and_ready_buffers_ok:
  assumes "frames_in_range env" and "sampler_inv s" and "exec env cs s = Inr s'"
  shows "buffer_ok (samp s')
     \<and> (pending_sample_ready s' \<noteq> 0 \<longrightarrow> buffer_ok (pending_samp s'))"
  using exec_inv [OF assms] by (simp add: sampler_inv_def)

theorem active_and_ready_buffers_ok_witness:
  "frames_in_range demo_env \<and> sampler_inv fresh_sampler
   \<and> (case exec demo_env [Load, Run [] 0, Restore (Some ''stereo.wav'')] fresh_sampler of
        Inl e \<Rightarrow> False
      | Inr s' \<Rightarrow> buffer_ok (samp s') \<and> data (samp s') = Live [1 / 10, 2 / 10, 3 / 10, 4 / 10]
          \<and> frames (info (samp s')) = 4 \<and> pending_sample_ready s' = 0)"
proof -
  note a = active_and_ready_buffers_ok
    [OF frames_in_range_demo_env sampler_inv_fresh_sampler exec_load_run_restore]
  show ?thesis
    unfolding exec_load_run_restore
    using a frames_in_range_demo_env sampler_inv_fresh_sampler
    by (simp add: fresh_sampler_def)
qed

theorem pending_buffer_counterexample:
  "buffer_ok (samp fresh_sampler) \<and> buffer_ok (pending_samp fresh_sampler)
   \<and> map_sum id (buffer_ok \<circ> pending_samp)
       (exec demo_env [Load, Restore (Some ''stereo.wav'')] fresh_sampler) = Inr False"
  unfolding exec_load_restore_stereo
  by (simp add: buffer_ok_def fresh_sampler_def zeroed_SampleFile_def)

subsection \<open>The cursor invariant over sequences of calls\<close>

text \<open>
  The condition on the cursor is kept by every call: where it holds, and it does of an
  idle plugin, it holds after \<^verbatim>\<open>run\<close>, after the load and after \<^verbatim>\<open>restore\<close>.
\<close>

lemma to_uint32_below:
  "0 \<le> i \<Longrightarrow> i < j mod 2 ^ 32 \<Longrightarrow> to_uint32 i \<le> to_uint32 j"
proof -
  assume i: "0 \<le> i" and j: "i < j mod 2 ^ 32"
  have "j mod 2 ^ 32 < (2 ^ 32 :: int)" by simp
  with i j have "i mod 2 ^ 32 = i" by simp
  with i j show ?thesis by (simp add: to_uint32_def)
qed

lemma run_cursor_inv:
  assumes "cursor_inv s" and "run s evs n = Inr (s', fx)"
  shows "cursor_inv s'"
proof -
  have pre: "play s \<longrightarrow> to_uint32 (frame s) \<le> to_uint32 (frames (info (samp s)))"
    using assms(1) by (auto simp: cursor_inv_def to_uint32_below)
  note rc = run_cursor [OF assms(2) pre]
  show ?thesis
  proof (cases "\<not> play s' \<and> pending_sample_ready s \<noteq> 0")
    case True
    with run_install_cases [OF assms(2)] have
      "info (samp s') = info (pending_samp s)" "pending_sample_ready s' = 0"
      by simp_all
    then show ?thesis using True assms(1) by (simp add: cursor_inv_def)
  next
    case False
    with run_install_cases [OF assms(2)] have
      "samp s' = samp s" "info (pending_samp s') = info (pending_samp s)"
      "pending_sample_ready s' = pending_sample_ready s"
      by (simp_all split: if_splits)
    then show ?thesis using rc assms(1) by (simp add: cursor_inv_def)
  qed
qed

lemma handle_load_sample_cursor_inv:
  assumes "frames_in_range env" and "cursor_inv s"
    and "handle_load_sample env s = Inr (s', fx)"
  shows "cursor_inv s'"
proof -
  note f = handle_load_sample_frame [OF assms(3)]
  have "0 \<le> frames (info (pending_samp s'))" if "pending_sample_ready s' \<noteq> 0"
  proof -
    have ok: "load_succeeds env s"
      using handle_load_sample_ready [OF assms(3)] that by (simp split: if_splits)
    from handle_load_sample_done [OF assms(3) ok] obtain path sample where
      "fst (sf_open env path (info (pending_samp s))) = Some sample"
      "info (pending_samp s') = snd (sf_open env path (info (pending_samp s)))"
      by blast
    with assms(1) show ?thesis by (simp add: frames_in_range_def)
  qed
  then show ?thesis using assms(2) f by (simp add: cursor_inv_def)
qed

lemma restore_cursor_inv:
  assumes "frames_in_range env" and "cursor_inv s" and "restore env v s = Inr (s', fx)"
  shows "cursor_inv s'"
proof (cases v)
  case None
  with assms show ?thesis by (simp add: restore_def)
next
  case (Some p)
  let ?s = "s\<lparr>pending_samp := (pending_samp s)\<lparr>filepath := strncpy_path p\<rparr>\<rparr>"
  from assms(3) Some obtain fx' where l: "handle_load_sample env ?s = Inr (s', fx')"
    by (auto simp: restore_def split: sum.splits)
  have "cursor_inv ?s" using assms(2) by (simp add: cursor_inv_def)
  from handle_load_sample_cursor_inv [OF assms(1) this l] show ?thesis .
qed

lemma exec_cursor_inv:
  "frames_in_range env \<Longrightarrow> cursor_inv s \<Longrightarrow> exec env cs s = Inr s' \<Longrightarrow> cursor_inv s'"
proof (induction cs arbitrary: s)
  case Nil
  then show ?case by simp
next
  case (Cons c cs)
  show ?case
  proof (cases c)
    case (Run evs n)
    with Cons.prems obtain s1 fx where
      a: "run s evs n = Inr (s1, fx)" and b: "exec env cs s1 = Inr s'"
      by (auto split: sum.splits)
    from Cons.IH [OF Cons.prems(1) run_cursor_inv [OF Cons.prems(2) a] b] show ?thesis .
  next
    case Load
    with Cons.prems obtain s1 fx where
      a: "handle_load_sample env s = Inr (s1, fx)" and b: "exec env cs s1 = Inr s'"
      by (auto split: sum.splits)
    from Cons.IH [OF Cons.prems(1) handle_load_sample_cursor_inv [OF Cons.prems(1,2) a] b]
    show ?thesis .
  next
    case (Restore v)
    with Cons.prems obtain s1 fx where
      a: "restore env v s = Inr (s1, fx)" and b: "exec env cs s1 = Inr s'"
      by (auto split: sum.splits)
    from Cons.IH [OF Cons.prems(1) restore_cursor_inv [OF Cons.prems(1,2) a] b]
    show ?thesis .
  qed
qed

subsection \<open>Events that are skipped\<close>

lemma process_event_skipped:
  "malformed_set_message (uris s) ev \<or> unrecognized_type (uris s) ev \<Longrightarrow>
   process_event ev (s, sf) = Inr ((s, sf), [Report (skip_report (uris s) ev)])"
  by (auto simp: process_event_def malformed_set_message_def unrecognized_type_def
      skip_report_def)

lemma read_events_skipped:
  assumes "malformed_set_message (uris s) ev \<or> unrecognized_type (uris s) ev"
  shows "read_events (evs1 @ ev # evs2) (s, sf) =
     (case read_events evs1 (s, sf) of
        Inl e \<Rightarrow> Inl e
      | Inr (st1, fx1) \<Rightarrow>
          (case read_events evs2 st1 of
             Inl e \<Rightarrow> Inl e
           | Inr (st2, fx2) \<Rightarrow> Inr (st2, fx1 @ Report (skip_report (uris s) ev) # fx2)))"
proof (cases "read_events evs1 (s, sf)")
  case (Inl e)
  then show ?thesis by (simp add: read_events_append)
next
  case (Inr r)
  then obtain s1 sf1 fx1 where r: "read_events evs1 (s, sf) = Inr ((s1, sf1), fx1)"
    by (cases r) auto
  have u: "uris s1 = uris s" using read_events_frame [OF r] by simp
  have "process_event ev (s1, sf1) = Inr ((s1, sf1), [Report (skip_report (uris s) ev)])"
    using process_event_skipped [of s1 ev sf1] assms u by simp
  then show ?thesis
    using r by (simp add: read_events_append split: sum.splits)
qed

text \<open>
  Claim C7. Take a block and put, anywhere among its events, a set-message without a body
  or without a filename, or an event of a type that \<^verbatim>\<open>run\<close> does not know. Then
  \<^verbatim>\<open>run\<close> ends as it does without that event: in the same fault, or in the same
  plugin (playback state, pending path, output and all) with the same effects, but for
  one more report, made after the effects of the events that come before. So the event is
  skipped and reported, and the events after it are processed as if it were not there.
\<close>

theorem skipped_event_is_contained:
  assumes "malformed_set_message (uris s) ev \<or> unrecognized_type (uris s) ev"
  shows "case run s (evs1 @ evs2) n of
      Inl e \<Rightarrow> run s (evs1 @ ev # evs2) n = Inl e
    | Inr (s', fx) \<Rightarrow>
        (\<exists>st1 fx1 fx2. read_events evs1 (s, 0) = Inr (st1, fx1) \<and> fx = fx1 @ fx2
           \<and> run s (evs1 @ ev # evs2) n =
               Inr (s', fx1 @ Report (skip_report (uris s) ev) # fx2))"
proof (cases "read_events evs1 (s, 0)")
  case (Inl e)
  then have "read_events (evs1 @ ev # evs2) (s, 0) = Inl e"
    by (simp add: read_events_skipped [OF assms])
  moreover from Inl have "read_events (evs1 @ evs2) (s, 0) = Inl e"
    by (simp add: read_events_append)
  ultimately show ?thesis by (simp add: run_def)
next
  case (Inr r1)
  then obtain st1 fx1 where r1: "read_events evs1 (s, 0) = Inr (st1, fx1)"
    by (cases r1) auto
  show ?thesis
  proof (cases "read_events evs2 st1")
    case (Inl e)
    with r1 have "read_events (evs1 @ ev # evs2) (s, 0) = Inl e"
      by (simp add: read_events_skipped [OF assms])
    moreover from Inl r1 have "read_events (evs1 @ evs2) (s, 0) = Inl e"
      by (simp add: read_events_append)
    ultimately show ?thesis by (simp add: run_def)
  next
    case (Inr r2)
    then obtain s2 k fxb where r2: "read_events evs2 st1 = Inr ((s2, k), fxb)"
      by (cases r2) auto
    from r1 r2 have
      long: "read_events (evs1 @ ev # evs2) (s, 0) =
               Inr ((s2, k), fx1 @ Report (skip_report (uris s) ev) # fxb)"
      by (simp add: read_events_skipped [OF assms])
    from r1 r2 have
      short: "read_events (evs1 @ evs2) (s, 0) = Inr ((s2, k), fx1 @ fxb)"
      by (simp add: read_events_append)
    show ?thesis
      using r1 by (auto simp: run_def long short split: sum.splits prod.splits)
  qed
qed

lemma run_with_skipped_event:
  "run demo_sampler
     [set_message_event (Some (Some ''b.wav'')), set_message_event None, note_on_event 0] 6 =
   Inr (demo_sampler\<lparr>pending_samp := zeroed_SampleFile\<lparr>filepath := ''b.wav''\<rparr>, signal := 1,
          output_port := [1 / 10, 2 / 10, 3 / 10, 4 / 10, 0, 0], frame := 4, play := False\<rparr>,
        [Report (Request_to_load ''b.wav''), Sem_Post, Report Malformed_set_message_no_body])"
  by (simp add: run_def render_def install_pending_def process_event_def memcpy_path_def
      STRING_BUF_def NUL_def zero_loop.simps copy_loop.simps read_data_def write_output_def
      to_uint32_def demo_sampler_def demo_sample_def zeroed_SampleFile_def demo_uris_def
      note_on_event_def set_message_event_def Let_def)

lemma run_without_skipped_event:
  "run demo_sampler [set_message_event (Some (Some ''b.wav'')), note_on_event 0] 6 =
   Inr (demo_sampler\<lparr>pending_samp := zeroed_SampleFile\<lparr>filepath := ''b.wav''\<rparr>, signal := 1,
          output_port := [1 / 10, 2 / 10, 3 / 10, 4 / 10, 0, 0], frame := 4, play := False\<rparr>,
        [Report (Request_to_load ''b.wav''), Sem_Post])"
  by (simp add: run_def render_def install_pending_def process_event_def memcpy_path_def
      STRING_BUF_def NUL_def zero_loop.simps copy_loop.simps read_data_def write_output_def
      to_uint32_def demo_sampler_def demo_sample_def zeroed_SampleFile_def demo_uris_def
      note_on_event_def set_message_event_def Let_def)

lemma run_with_unknown_event:
  "run demo_sampler [unknown_event, note_on_event 0] 6 =
   Inr (demo_sampler\<lparr>output_port := [1 / 10, 2 / 10, 3 / 10, 4 / 10, 0, 0], frame := 4,
          play := False\<rparr>,
        [Report (Unknown_event_type 9)])"
  by (simp add: run_def render_def install_pending_def process_event_def
      zero_loop.simps copy_loop.simps read_data_def write_output_def
      to_uint32_def demo_sampler_def demo_sample_def demo_uris_def
      note_on_event_def unknown_event_def Let_def)

lemma run_note_on_only:
  "run demo_sampler [note_on_event 0] 6 =
   Inr (demo_sampler\<lparr>output_port := [1 / 10, 2 / 10, 3 / 10, 4 / 10, 0, 0], frame := 4,
          play := False\<rparr>,
        [])"
  by (simp add: run_def render_def install_pending_def process_event_def
      zero_loop.simps copy_loop.simps read_data_def write_output_def
      to_uint32_def demo_sampler_def demo_sample_def demo_uris_def
      note_on_event_def Let_def)

theorem skipped_event_is_contained_witness:
  "malformed_set_message (uris demo_sampler) (set_message_event None)
   \<and> map_sum id fst (run demo_sampler
         [set_message_event (Some (Some ''b.wav'')), set_message_event None, note_on_event 0] 6)
     = map_sum id fst (run demo_sampler
         [set_message_event (Some (Some ''b.wav'')), note_on_event 0] 6)
   \<and> map_sum id snd (run demo_sampler
         [set_message_event (Some (Some ''b.wav'')), set_message_event None, note_on_event 0] 6)
     = Inr [Report (Request_to_load ''b.wav''), Sem_Post, Report Malformed_set_message_no_body]
   \<and> unrecognized_type (uris demo_sampler) unknown_event
   \<and> map_sum id fst (run demo_sampler [unknown_event, note_on_event 0] 6)
     = map_sum id fst (run demo_sampler [note_on_event 0] 6)
   \<and> map_sum id snd (run demo_sampler [unknown_event, note_on_event 0] 6)
     = Inr [Report (Unknown_event_type 9)]"
proof -
  have m: "malformed_set_message (uris demo_sampler) (set_message_event None)"
    by (simp add: malformed_set_message_def demo_sampler_def demo_uris_def
        set_message_event_def)
  have u: "unrecognized_type (uris demo_sampler) unknown_event"
    by (simp add: unrecognized_type_def demo_sampler_def demo_uris_def unknown_event_def)
  note a = skipped_event_is_contained [OF disjI1 [OF m],
      of "[set_message_event (Some (Some ''b.wav''))]" "[note_on_event 0]" 6]
  note b = skipped_event_is_contained [OF disjI2 [OF u], of "[]" "[note_on_event 0]" 6]
  from a have "\<exists>s' fx. run demo_sampler
         [set_message_event (Some (Some ''b.wav'')), set_message_event None, note_on_event 0] 6
       = Inr (s', fx)"
    by (auto simp: run_without_skipped_event)
  moreover from b have "\<exists>s' fx. run demo_sampler [unknown_event, note_on_event 0] 6
       = Inr (s', fx)"
    by (auto simp: run_note_on_only)
  ultimately show ?thesis
    using m u
    by (simp add: run_with_skipped_event run_without_skipped_event run_with_unknown_event
        run_note_on_only)
qed


subsection \<open>Rendering after a load that failed\<close>








subsection \<open>\<^verbatim>\<open>run\<close> completes on well-formed input\<close>

lemma copy_loop_total:
  assumes "d \<noteq> Dangling" and "lf \<le> length (case d of Live b \<Rightarrow> b | _ \<Rightarrow> [])"
    and "pos \<le> n" and "n \<le> length out"
  shows "\<exists>pos' f' out'. copy_loop n lf d pos f out = Inr (pos', f', out')
     \<and> pos' \<le> n \<and> length out' = length out"
proof (cases "pos < n \<and> f < lf")
  case False
  then show ?thesis using assms by (simp add: copy_loop_done)
next
  case True
  with assms obtain b where d: "d = Live b" and lb: "lf \<le> length b"
    by (cases d) auto
  define c where "c = min (n - pos) (lf - f)"
  have 1: "pos + c \<le> length out" using assms(3,4) unfolding c_def by linarith
  have 2: "f + c \<le> length b" using True lb unfolding c_def by linarith
  have 3: "pos + c \<le> n" using assms(3) unfolding c_def by linarith
  have lt: "length (take c (drop f b)) = c" using 2 by simp
  have lp: "length (take pos out) = pos" using 1 by simp
  have ld: "length (drop (pos + c) out) = length out - (pos + c)" by simp
  have "length (take pos out @ take c (drop f b) @ drop (pos + c) out)
      = pos + (c + (length out - (pos + c)))"
    by (simp only: length_append lt lp ld)
  then have 4: "length (take pos out @ take c (drop f b) @ drop (pos + c) out) = length out"
    using 1 by linarith
  have 5: "copy_loop n lf d pos f out =
      Inr (pos + c, f + c, take pos out @ take c (drop f b) @ drop (pos + c) out)"
    unfolding d c_def by (rule copy_loop_ok) (use 1 2 in \<open>simp_all only: c_def\<close>)
  from 3 4 5 show ?thesis by blast
qed

lemma read_events_start_frame:
  "read_events evs (s, sf) = Inr ((s1, sf1), fx) \<Longrightarrow> sf \<le> n \<Longrightarrow>
   \<forall>e \<in> set evs. time_frames e \<le> n \<Longrightarrow> sf1 \<le> n"
proof (induction evs arbitrary: s sf fx)
  case Nil
  then show ?case by simp
next
  case (Cons ev evs)
  from Cons.prems(1) obtain sa sfa fxa fxb where
    a: "process_event ev (s, sf) = Inr ((sa, sfa), fxa)" and
    b: "read_events evs (sa, sfa) = Inr ((s1, sf1), fxb)"
    by (auto split: sum.splits)
  have "sfa \<le> n"
    using a Cons.prems(2,3)
    by (auto simp: process_event_def Let_def split: if_splits option.splits sum.splits)
  from Cons.IH [OF b this] Cons.prems(3) show ?case by simp
qed

lemma run_completes:
  assumes "\<forall>e \<in> set evs. path_fits e \<and> time_frames e \<le> n"
    and "n \<le> length (output_port s)"
    and "data (samp s) \<noteq> Dangling"
    and "to_uint32 (frames (info (samp s))) \<le> length (active_samples s)"
  shows "\<exists>s' fx. run s evs n = Inr (s', fx)"
proof -
  from assms(1) obtain s1 k fx1 where a: "read_events evs (s, 0) = Inr ((s1, k), fx1)"
    using read_events_total [of evs "(s, 0)"] by auto
  have k: "k \<le> n" using read_events_start_frame [OF a] assms(1) by simp
  note fa = read_events_frame [OF a]
  let ?lf = "to_uint32 (frames (info (samp s)))"
  have "\<exists>s2 pos. render n k s1 = Inr (s2, pos) \<and> pos \<le> n
      \<and> length (output_port s2) = length (output_port s) \<and> samp s2 = samp s"
  proof (cases "play s1")
    case False
    then show ?thesis using fa by (simp add: render_def)
  next
    case True
    have z: "zero_loop k 0 (output_port s) =
        Inr (k, take 0 (output_port s) @ replicate (k - 0) 0 @ drop k (output_port s))"
      by (rule zero_loop_ok) (use k assms(2) in simp_all)
    let ?o1 = "take 0 (output_port s) @ replicate (k - 0) 0 @ drop k (output_port s)"
    have l1: "length ?o1 = length (output_port s)" using k assms(2) by simp
    from copy_loop_total [OF assms(3), of ?lf k n ?o1 "to_uint32 (frame s1)"]
    obtain pos' f' out' where
      c: "copy_loop n ?lf (data (samp s)) k (to_uint32 (frame s1)) ?o1 = Inr (pos', f', out')"
      and p: "pos' \<le> n" and l: "length out' = length ?o1"
      using assms(2,4) k l1 by (auto simp: active_samples_def)
    show ?thesis
      using True fa z c p l l1 by (simp add: render_def Let_def)
  qed
  then obtain s2 pos where b: "render n k s1 = Inr (s2, pos)" and p: "pos \<le> n"
    and l2: "length (output_port s2) = length (output_port s)" and s2: "samp s2 = samp s"
    by blast
  have "data (samp s2) \<noteq> Dangling" using assms(3) s2 by simp
  from install_pending_total [OF this] obtain s3 fx3 where
    c: "install_pending s2 = Inr (s3, fx3)" and o3: "output_port s3 = output_port s2"
    by blast
  have "zero_loop n pos (output_port s3) =
      Inr (n, take pos (output_port s3) @ replicate (n - pos) 0 @ drop n (output_port s3))"
    by (rule zero_loop_ok) (use p o3 l2 assms(2) in simp_all)
  then show ?thesis using a b c by (simp add: run_def)
qed

subsection \<open>The plugin that \<^verbatim>\<open>instantiate\<close> returns\<close>

lemma instantiate_setup_zero_memory:
  "instantiate_setup demo_host zero_memory ''/lv2/'' = (Some (Inr fresh_sampler), [])"
  by (simp add: instantiate_setup_def strncat_path_def strncpy_path_def c_string_def
      default_sample_file_def STRING_BUF_def NUL_def demo_host_def zero_memory_def
      fresh_sampler_def Let_def)

lemma instantiate_setup_keeps_playback:
  "instantiate_setup host raw path = (Some (Inr plugin), fx) \<Longrightarrow>
   play plugin = play raw \<and> frame plugin = frame raw \<and> output_port plugin = output_port raw
   \<and> samp plugin = zeroed_SampleFile"
  by (auto simp: instantiate_setup_def split: if_splits option.splits sum.splits)

text \<open>
  What the memory held in \<open>play\<close> and \<open>frame\<close> does not matter to the loads: after
  \<^verbatim>\<open>instantiate\<close> in any memory, the restore of the stereo file leaves four samples
  under a frame count of three in the pending slot.
\<close>

lemma stale_pending_in_any_memory:
  "\<exists>p fx. instantiate demo_host demo_env raw ''/lv2/'' = (Some (Inr p), fx)
     \<and> map_sum id (buffer_ok \<circ> pending_samp)
           (exec demo_env [Restore (Some ''stereo.wav'')] p) = Inr False"
  by (simp add: instantiate_def instantiate_setup_def strncat_path_def strncpy_path_def
      default_sample_file_def restore_def handle_load_sample_def load_decode_def
      load_begin_def malloc_floats_def malloc_size_def sf_read_float_def c_string_def
      STRING_BUF_def NUL_def demo_host_def demo_env_def zeroed_SampleFile_def buffer_ok_def
      Let_def)

text \<open>
  Claim C9. The claim is that a plugin that plays after \<^verbatim>\<open>run\<close> has its cursor below
  the frame count of the active sample. \<^verbatim>\<open>run\<close> keeps the cursor so where it finds
  it so (lemma \<open>run_keeps_cursor_below_frame_count\<close>), but \<^verbatim>\<open>instantiate\<close> does not
  write \<open>play\<close> and \<open>frame\<close>: the \<^verbatim>\<open>Sampler\<close> comes from \<^verbatim>\<open>malloc\<close> and
  only the sample files and the URIDs are cleared. In memory that holds a set \<open>play\<close>
  and 7 in \<open>frame\<close>, \<^verbatim>\<open>instantiate\<close> returns a plugin that plays with its cursor at
  7 on an active sample of no frames, and a \<^verbatim>\<open>run\<close> of six samples without events
  leaves it so, the decoded default sample waiting in the pending slot.
\<close>

theorem cursor_past_end_after_instantiate:
  "instantiate demo_host demo_env stale_memory ''/lv2/'' =
     (Some (Inr stale_plugin),
      [Report (Loading_sample ''/lv2/monosample.wav''), Malloc_Call 16])
   \<and> run (connect_port stale_plugin SAMPLER_OUT [7, 7, 7, 7, 7, 7]) [] 6 =
       Inr (connect_port stale_plugin SAMPLER_OUT [0, 0, 0, 0, 0, 0], [])
   \<and> play stale_plugin \<and> frame stale_plugin = 7
   \<and> frames (info (samp stale_plugin)) = 0"
proof -
  have a: "instantiate demo_host demo_env stale_memory ''/lv2/'' =
     (Some (Inr stale_plugin),
      [Report (Loading_sample ''/lv2/monosample.wav''), Malloc_Call 16])"
    by (simp add: instantiate_def instantiate_setup_def strncat_path_def strncpy_path_def
        default_sample_file_def handle_load_sample_def load_decode_def load_begin_def
        malloc_floats_def malloc_size_def sf_read_float_def c_string_def STRING_BUF_def
        NUL_def demo_host_def demo_env_def stale_memory_def zero_memory_def stale_plugin_def
        zeroed_SampleFile_def Let_def)
  have b: "run (connect_port stale_plugin SAMPLER_OUT [7, 7, 7, 7, 7, 7]) [] 6 =
       Inr (connect_port stale_plugin SAMPLER_OUT [0, 0, 0, 0, 0, 0], [])"
    by (simp add: run_def render_def install_pending_def zero_loop.simps copy_loop.simps
        write_output_def to_uint32_def connect_port_def SAMPLER_OUT_def stale_plugin_def
        zeroed_SampleFile_def Let_def)
  show ?thesis
    using a b by (simp add: stale_plugin_def zeroed_SampleFile_def)
qed

subsection \<open>Renders while a load is under way\<close>

lemma runs_without_ready:
  "list_all is_run cs \<Longrightarrow> pending_sample_ready s = 0 \<Longrightarrow> exec env cs s = Inr s1 \<Longrightarrow>
   samp s1 = samp s \<and> pending_sample_ready s1 = 0
   \<and> info (pending_samp s1) = info (pending_samp s)
   \<and> data (pending_samp s1) = data (pending_samp s)"
proof (induction cs arbitrary: s)
  case Nil
  then show ?case by simp
next
  case (Cons c cs)
  from Cons.prems(1) obtain evs n where c: "c = Run evs n"
    by (cases c) auto
  with Cons.prems(3) obtain sa fx where
    a: "run s evs n = Inr (sa, fx)" and b: "exec env cs sa = Inr s1"
    by (auto split: sum.splits)
  from run_install_cases [OF a] Cons.prems(2) have
    sa: "samp sa = samp s" "pending_sample_ready sa = 0"
      "info (pending_samp sa) = info (pending_samp s)"
      "data (pending_samp sa) = data (pending_samp s)"
    by simp_all
  from Cons.IH [OF _ sa(2) b] Cons.prems(1) sa show ?case by simp
qed

lemma load_begin_idem: "pending_sample_ready s = 0 \<Longrightarrow> load_begin s = s"
  by (cases s) (simp add: load_begin_def)

text \<open>
  Claim C10, as the code has it. The claim is that a new load request makes a result
  that is ready ineligible for installation. The request is made in \<^verbatim>\<open>run\<close>
  (lines 307-310), which leaves the ready flag as it is, and a \<^verbatim>\<open>run\<close> that ends
  idle installs what is ready. What clears the flag is the first statement of the load
  itself, before any decoding. From there on, however many cycles of \<^verbatim>\<open>run\<close> come
  before the decoding, none installs anything: the active sample, the flag and the
  pending data stay. When the decoding returns, the flag is set exactly if the load
  succeeded, and then the pending slot holds the info and the samples of the file just
  read.
\<close>

theorem load_withdraws_ready_first:
  assumes "list_all is_run cs" and "exec env cs (load_begin s) = Inr s1"
  shows "pending_sample_ready (load_begin s) = 0
     \<and> samp s1 = samp s \<and> pending_sample_ready s1 = 0
     \<and> info (pending_samp s1) = info (pending_samp s)
     \<and> data (pending_samp s1) = data (pending_samp s)
     \<and> (\<forall>ev sf s' sf' fx. process_event ev (s, sf) = Inr ((s', sf'), fx) \<longrightarrow>
           pending_sample_ready s' = pending_sample_ready s)
     \<and> (\<forall>s2 fx. load_decode env s1 = Inr (s2, fx) \<longrightarrow>
           samp s2 = samp s
           \<and> (pending_sample_ready s2 \<noteq> 0 \<longleftrightarrow> load_succeeds env s1)
           \<and> (load_succeeds env s1 \<longrightarrow>
                (\<exists>path sample block block'.
                    c_string (filepath (pending_samp s1)) = Inr path
                  \<and> fst (sf_open env path (info (pending_samp s1))) = Some sample
                  \<and> info (pending_samp s2) = snd (sf_open env path (info (pending_samp s1)))
                  \<and> malloc_floats env (frames (info (pending_samp s2))) = Some block
                  \<and> sf_read_float sample block (frames (info (pending_samp s2))) = Inr block'
                  \<and> data (pending_samp s2) = Live block')))"
proof -
  have r0: "pending_sample_ready (load_begin s) = 0" by (simp add: load_begin_def)
  from runs_without_ready [OF assms(1) r0 assms(2)] have
    keep: "samp s1 = samp s" "pending_sample_ready s1 = 0"
      "info (pending_samp s1) = info (pending_samp s)"
      "data (pending_samp s1) = data (pending_samp s)"
    by (simp_all add: load_begin_def)
  have req: "pending_sample_ready s' = pending_sample_ready s"
    if "process_event ev (s, sf) = Inr ((s', sf'), fx)" for ev sf s' sf' fx
    using process_event_frame [OF that] by simp
  have h: "handle_load_sample env s1 = load_decode env s1"
    using load_begin_idem [OF keep(2)] by (simp add: handle_load_sample_def)
  have dec: "samp s2 = samp s
           \<and> (pending_sample_ready s2 \<noteq> 0 \<longleftrightarrow> load_succeeds env s1)
           \<and> (load_succeeds env s1 \<longrightarrow>
                (\<exists>path sample block block'.
                    c_string (filepath (pending_samp s1)) = Inr path
                  \<and> fst (sf_open env path (info (pending_samp s1))) = Some sample
                  \<and> info (pending_samp s2) = snd (sf_open env path (info (pending_samp s1)))
                  \<and> malloc_floats env (frames (info (pending_samp s2))) = Some block
                  \<and> sf_read_float sample block (frames (info (pending_samp s2))) = Inr block'
                  \<and> data (pending_samp s2) = Live block'))"
    if "load_decode env s1 = Inr (s2, fx)" for s2 fx
  proof -
    from that h have l: "handle_load_sample env s1 = Inr (s2, fx)" by simp
    from handle_load_sample_frame [OF l] keep(1) have 1: "samp s2 = samp s" by simp
    from handle_load_sample_ready [OF l] have
      2: "pending_sample_ready s2 \<noteq> 0 \<longleftrightarrow> load_succeeds env s1" by simp
    from 1 2 handle_load_sample_done [OF l] show ?thesis by blast
  qed
  from r0 keep req dec show ?thesis by blast
qed

lemma exec_loading_plugin:
  "exec demo_env [Run [] 1, Run [note_on_event 0] 2] (load_begin stale_ready) =
     Inr loading_plugin"
  by (simp add: run_def render_def install_pending_def process_event_def zero_loop.simps
      copy_loop.simps read_data_def write_output_def to_uint32_def load_begin_def
      loading_plugin_def stale_ready_def demo_ready_def demo_sampler_def demo_sample_def
      other_sample_def demo_uris_def note_on_event_def Let_def)

lemma load_decode_loading_plugin:
  "load_decode demo_env loading_plugin =
     Inr (loading_plugin\<lparr>pending_samp := demo_sample, pending_sample_ready := 1\<rparr>,
          [Report (Loading_sample ''a.wav''), Malloc_Call 16])"
  by (simp add: load_decode_def malloc_floats_def malloc_size_def sf_read_float_def
      c_string_def STRING_BUF_def NUL_def demo_env_def loading_plugin_def stale_ready_def
      demo_ready_def demo_sampler_def demo_sample_def other_sample_def Let_def)

theorem load_withdraws_ready_first_witness:
  "pending_sample_ready stale_ready = 1
   \<and> list_all is_run [Run [] 1, Run [note_on_event 0] 2]
   \<and> (case exec demo_env [Run [] 1, Run [note_on_event 0] 2] (load_begin stale_ready) of
        Inl e \<Rightarrow> False
      | Inr s1 \<Rightarrow> samp s1 = demo_sample \<and> pending_sample_ready s1 = 0
          \<and> data (pending_samp s1) = Live [5 / 10, 6 / 10]
          \<and> (case load_decode demo_env s1 of
                Inl e \<Rightarrow> False
              | Inr (s2, fx) \<Rightarrow> samp s2 = demo_sample \<and> pending_sample_ready s2 = 1
                  \<and> data (pending_samp s2) = Live [1 / 10, 2 / 10, 3 / 10, 4 / 10]))"
proof -
  have r: "list_all is_run [Run [] 1, Run [note_on_event 0] 2]" by simp
  note a = load_withdraws_ready_first [OF r exec_loading_plugin]
  show ?thesis
    unfolding exec_loading_plugin
    using a r
    by (simp add: load_decode_loading_plugin)
       (simp add: loading_plugin_def stale_ready_def demo_ready_def demo_sampler_def
         demo_sample_def other_sample_def)
qed

text \<open>
  A request does not withdraw what is ready. \<open>demo_ready\<close> is idle with the two-frame
  sample decoded and ready; a cycle whose only event asks for \<^verbatim>\<open>c.wav\<close> installs
  that two-frame sample, under the path of the request, and the worker that the request
  woke then reads the path of the sample that was active before.
\<close>

theorem request_installs_prior_result_counterexample:
  "pending_sample_ready demo_ready = 1
   \<and> data (pending_samp demo_ready) = Live [5 / 10, 6 / 10]
   \<and> run demo_ready [set_message_event (Some (Some ''c.wav''))] 1 =
       Inr (requested_plugin,
            [Report (Request_to_load ''c.wav''), Sem_Post,
             Free_Call (Live [1 / 10, 2 / 10, 3 / 10, 4 / 10])])
   \<and> filepath (samp requested_plugin) = ''c.wav''
   \<and> data (samp requested_plugin) = Live [5 / 10, 6 / 10]
   \<and> worker_step demo_env requested_plugin =
       Some (Inr (reloaded_plugin, [Report (Loading_sample ''a.wav''), Malloc_Call 16]))
   \<and> filepath (pending_samp reloaded_plugin) = ''a.wav''"
proof -
  have a: "run demo_ready [set_message_event (Some (Some ''c.wav''))] 1 =
       Inr (requested_plugin,
            [Report (Request_to_load ''c.wav''), Sem_Post,
             Free_Call (Live [1 / 10, 2 / 10, 3 / 10, 4 / 10])])"
    by (simp add: run_def render_def install_pending_def free_data_def process_event_def
        memcpy_path_def STRING_BUF_def NUL_def zero_loop.simps write_output_def
        requested_plugin_def demo_ready_def demo_sampler_def demo_sample_def
        other_sample_def demo_uris_def set_message_event_def Let_def)
  have b: "worker_step demo_env requested_plugin =
       Some (Inr (reloaded_plugin, [Report (Loading_sample ''a.wav''), Malloc_Call 16]))"
    by (simp add: worker_step_def handle_load_sample_def load_decode_def load_begin_def
        malloc_floats_def malloc_size_def sf_read_float_def c_string_def STRING_BUF_def
        NUL_def demo_env_def reloaded_plugin_def requested_plugin_def demo_ready_def
        demo_sampler_def demo_sample_def other_sample_def Let_def)
  show ?thesis
    using a b
    by (simp add: reloaded_plugin_def requested_plugin_def demo_ready_def demo_sampler_def
        demo_sample_def other_sample_def)
qed

end
